theory Spec2Isabelle
  imports Main "HOL-Library.AList"
begin

section \<open>JavaScript values\<close>

text \<open>
  The values exchanged with the host and stored in descriptors. An object is an
  association list: keys are unique and kept in insertion order, as in JavaScript.
  Numbers are integers here (identifiers, indices, areas); no claim depends on fractions.
\<close>

datatype jsval =
    JUndefined
  | JNull
  | JBool bool
  | JNum int
  | JStr string
  | JArr "jsval list"
  | JObj "(string \<times> jsval) list"

type_synonym jsobj = "(string \<times> jsval) list"

text \<open>Errors a command can end with: a rejected host call, or a thrown exception.\<close>

datatype error =
    HostCommandFailed jsval
  | TypeError
  | Error string

text \<open>JavaScript truthiness (\<^verbatim>\<open>if (v)\<close>, \<^verbatim>\<open>!v\<close>, \<^verbatim>\<open>a && b\<close>).\<close>

fun truthy :: "jsval \<Rightarrow> bool" where
  "truthy JUndefined = False"
| "truthy JNull = False"
| "truthy (JBool b) = b"
| "truthy (JNum n) = (n \<noteq> 0)"
| "truthy (JStr s) = (s \<noteq> [])"
| "truthy (JArr xs) = True"
| "truthy (JObj kvs) = True"

text \<open>The decimal key under which an array or a string holds its element \<open>n\<close>.\<close>

fun indexKey :: "nat \<Rightarrow> string" where
  "indexKey n =
     (if n < 10 then [''0123456789'' ! n]
      else indexKey (n div 10) @ [''0123456789'' ! (n mod 10)])"

text \<open>The keys every array and string owns: \<^verbatim>\<open>length\<close> and the indices below it.\<close>

definition ownsIndexOrLength :: "nat \<Rightarrow> string \<Rightarrow> bool" where
  "ownsIndexOrLength n p = (p = ''length'' \<or> p \<in> set (map indexKey [0..<n]))"

text \<open>
  \<^verbatim>\<open>value.hasOwnProperty(property)\<close> on a value that is neither null nor undefined:
  an object owns its keys, an array and a string own \<^verbatim>\<open>length\<close> and their indices,
  a number and a boolean own nothing.
\<close>

fun hasOwnProperty :: "jsval \<Rightarrow> string \<Rightarrow> bool" where
  "hasOwnProperty (JObj kvs) p = (map_of kvs p \<noteq> None)"
| "hasOwnProperty (JArr xs) p = ownsIndexOrLength (length xs) p"
| "hasOwnProperty (JStr s) p = ownsIndexOrLength (length s) p"
| "hasOwnProperty v p = False"

text \<open>The own property \<open>p\<close> of an array or a string of length \<open>n\<close> with elements
  \<open>elem\<close>: its length, or the element at the index \<open>p\<close> is the key of.\<close>

definition ownElement :: "(nat \<Rightarrow> jsval) \<Rightarrow> nat \<Rightarrow> string \<Rightarrow> jsval" where
  "ownElement elem n p =
     (if p = ''length'' then JNum (int n)
      else (case find (\<lambda>i. indexKey i = p) [0..<n] of
              Some i \<Rightarrow> elem i
            | None \<Rightarrow> JUndefined))"

text \<open>\<^verbatim>\<open>value[property]\<close> on a value that is neither null nor undefined, for its own
  properties; a property the value does not own reads as undefined (inherited
  properties are methods, which are no values here).\<close>

fun jsGet :: "jsval \<Rightarrow> string \<Rightarrow> jsval" where
  "jsGet (JObj kvs) p = (case map_of kvs p of Some v \<Rightarrow> v | None \<Rightarrow> JUndefined)"
| "jsGet (JArr xs) p = ownElement (\<lambda>i. xs ! i) (length xs) p"
| "jsGet (JStr s) p = ownElement (\<lambda>i. JStr [s ! i]) (length s) p"
| "jsGet v p = JUndefined"

text \<open>\<^verbatim>\<open>Array.prototype.reduce(callback, initial)\<close>, the callback taking
  the accumulator, the element and its index.\<close>

fun reduceFrom :: "('b \<Rightarrow> 'a \<Rightarrow> nat \<Rightarrow> 'b) \<Rightarrow> 'b \<Rightarrow> nat \<Rightarrow> 'a list \<Rightarrow> 'b" where
  "reduceFrom f acc i [] = acc"
| "reduceFrom f acc i (x # xs) = reduceFrom f (f acc x i) (Suc i) xs"

definition reduce :: "'a list \<Rightarrow> ('b \<Rightarrow> 'a \<Rightarrow> nat \<Rightarrow> 'b) \<Rightarrow> 'b \<Rightarrow> 'b" where
  "reduce xs f initial = reduceFrom f initial 0 xs"

text \<open>\<^verbatim>\<open>_.assign(object, source)\<close>: every own key of the source is written to the
  object, in the source's order; an undefined source leaves the object as it is.\<close>

definition assign :: "jsobj \<Rightarrow> jsobj option \<Rightarrow> jsobj" where
  "assign obj source =
     (case source of
        None \<Rightarrow> obj
      | Some src \<Rightarrow> foldl (\<lambda>acc (k, v). AList.update k v acc) obj src)"

section \<open>Host references and requests\<close>

text \<open>
  The reference builders of the host adapter (\<^verbatim>\<open>documentLib.referenceBy.id\<close>,
  \<^verbatim>\<open>layerLib.referenceBy.id\<close>, \<^verbatim>\<open>layerLib.referenceBy.index\<close>,
  \<^verbatim>\<open>layerLib.referenceBy.current\<close>) build plain objects; each is a constructor here.
\<close>

datatype reference =
    DocumentById nat
  | LayerById nat
  | LayerByIndex int
  | LayerCurrent

record refObj =
  reference :: "reference list"
  property :: string

text \<open>
  The play objects the modelled commands build: \<^verbatim>\<open>layerLib.groupSelected()\<close>,
  \<^verbatim>\<open>layerLib.deselectAll()\<close>, \<^verbatim>\<open>layerLib.select(ref, makeVisible, modifier)\<close> and
  \<^verbatim>\<open>toolLib.resetTypeTool(alignment, font, size, color)\<close>.
\<close>

datatype playObject =
    GroupSelected
  | DeselectAll
  | Select "reference list" bool "string option"
  | ResetTypeTool string string nat "nat list"

text \<open>The requests a command sends to the host, in the order it issues them.\<close>

datatype hostRequest =
    BatchGetProperties "refObj list" bool
  | PlayObject playObject
  | GetProperty reference string
  | SetSuppressTargetPaths bool

text \<open>
  The host adapter is outside the repository's sources; its answers are parameters.
  \<open>batchGetProperties\<close> answers a request list with the list of values, or rejects;
  with \<^verbatim>\<open>continueOnError\<close> (\<open>batchGetPropertiesContinue\<close>) the answer is the list of
  per-item results (\<^verbatim>\<open>response[0]\<close>), an item that failed being a value that does
  not own the property.
\<close>

record host =
  batchGetProperties :: "refObj list \<Rightarrow> error + jsval list"
  batchGetPropertiesContinue :: "refObj list \<Rightarrow> error + jsval list"
  playObject :: "playObject \<Rightarrow> error + jsval"
  getProperty :: "reference \<Rightarrow> string \<Rightarrow> error + jsval"
  setSuppressTargetPaths :: "bool \<Rightarrow> error + jsval"

section \<open>Batched property fetch\<close>

text \<open>Properties requested for every layer (\<^verbatim>\<open>_layerProperties\<close>).\<close>

definition layerProperties :: "string list" where
  "layerProperties =
     [''layerID'', ''name'', ''visible'', ''layerLocking'', ''itemIndex'',
      ''background'', ''boundsNoEffects'', ''opacity'', ''layerFXVisible'', ''mode'']"

text \<open>Properties included only if present (\<^verbatim>\<open>_optionalLayerProperties\<close>).\<close>

definition optionalLayerProperties :: "string list" where
  "optionalLayerProperties =
     [''adjustment'', ''AGMStrokeStyleInfo'', ''textKey'', ''layerKind'',
      ''keyOriginType'', ''fillEnabled'', ''fillOpacity'', ''layerEffects'',
      ''proportionalScaling'', ''artboard'', ''artboardEnabled'', ''pathBounds'',
      ''smartObject'', ''globalAngle'']"

text \<open>The request list of \<^verbatim>\<open>_getLayersByRef\<close>: for every reference, in order,
  one entry per property, in the order of the property list.\<close>

definition refObjsOf :: "string list \<Rightarrow> reference list list \<Rightarrow> refObj list" where
  "refObjsOf props references =
     reduce references
       (\<lambda>refs ref i. refs @ map (\<lambda>p. \<lparr>reference = ref, property = p\<rparr>) props)
       []"

text \<open>
  The reducer over the host's answers for the required properties: answer number
  \<open>index\<close> belongs to property \<open>index mod 10\<close>; a new object is pushed at every property
  index 0, and the answer is stored in the last object. Storing into a missing last
  object is JavaScript's TypeError.
\<close>

definition requiredStep :: "error + jsobj list \<Rightarrow> jsval \<Rightarrow> nat \<Rightarrow> error + jsobj list" where
  "requiredStep acc v index =
     (case acc of
        Inl e \<Rightarrow> Inl e
      | Inr results \<Rightarrow>
          (let propertyIndex = index mod length layerProperties;
               results1 = (if propertyIndex = 0 then results @ [[]] else results)
           in case rev results1 of
                [] \<Rightarrow> Inl TypeError
              | result # before \<Rightarrow>
                  Inr (rev before @
                       [AList.update (layerProperties ! propertyIndex) v result])))"

text \<open>
  The reducer over the per-item answers for the optional properties: the property is
  stored only when the answer is truthy and owns it; otherwise the object is left
  without that key.
\<close>

definition optionalStep :: "error + jsobj list \<Rightarrow> jsval \<Rightarrow> nat \<Rightarrow> error + jsobj list" where
  "optionalStep acc v index =
     (case acc of
        Inl e \<Rightarrow> Inl e
      | Inr results \<Rightarrow>
          (let propertyIndex = index mod length optionalLayerProperties;
               results1 = (if propertyIndex = 0 then results @ [[]] else results)
           in case rev results1 of
                [] \<Rightarrow> Inl TypeError
              | result # before \<Rightarrow>
                  (let property = optionalLayerProperties ! propertyIndex
                   in Inr (rev before @
                        [if truthy v \<and> hasOwnProperty v property
                         then AList.update property (jsGet v property) result
                         else result]))))"

text \<open>\<^verbatim>\<open>xs[index]\<close> of an array: undefined out of range.\<close>

definition at :: "'a list \<Rightarrow> nat \<Rightarrow> 'a option" where
  "at xs i = (if i < length xs then Some (xs ! i) else None)"

text \<open>\<^verbatim>\<open>Array.prototype.map\<close> with the element's index.\<close>

definition mapIndexed :: "('a \<Rightarrow> nat \<Rightarrow> 'b) \<Rightarrow> 'a list \<Rightarrow> 'b list" where
  "mapIndexed f xs = map (\<lambda>(x, i). f x i) (zip xs [0..<length xs])"

text \<open>
  \<^verbatim>\<open>_getLayersByRef\<close>: both batched requests are issued; the joined promise rejects
  when either does (when both do, with the rejection of the required properties here;
  the source leaves the order of the two open), and otherwise merges the optional
  properties of item \<open>index\<close> into the required properties of item \<open>index\<close>.
\<close>

definition getLayersByRef :: "host \<Rightarrow> reference list list \<Rightarrow> error + jsobj list" where
  "getLayersByRef h references =
     (let refObjs = refObjsOf layerProperties references;
          layerPropertiesPromise =
            (case batchGetProperties h refObjs of
               Inl e \<Rightarrow> Inl e
             | Inr values \<Rightarrow> reduce values requiredStep (Inr []));
          refObjsOptional = refObjsOf optionalLayerProperties references;
          optionalPropertiesPromise =
            (case batchGetPropertiesContinue h refObjsOptional of
               Inl e \<Rightarrow> Inl e
             | Inr allResults \<Rightarrow> reduce allResults optionalStep (Inr []))
      in case layerPropertiesPromise of
           Inl e \<Rightarrow> Inl e
         | Inr allProperties \<Rightarrow>
             (case optionalPropertiesPromise of
                Inl e \<Rightarrow> Inl e
              | Inr allOptionalProperties \<Rightarrow>
                  Inr (mapIndexed
                         (\<lambda>properties index. assign properties (at allOptionalProperties index))
                         allProperties)))"

subsection \<open>The reducers split the answers into one chunk per reference\<close>

text \<open>
  Both reducers are instances of one step over a property list \<open>props\<close> and a way to
  \<open>store\<close> an answer in the last object; the proofs are done once, for that step.
\<close>

definition chunkStep ::
  "string list \<Rightarrow> (string \<Rightarrow> jsval \<Rightarrow> jsobj \<Rightarrow> jsobj) \<Rightarrow>
   error + jsobj list \<Rightarrow> jsval \<Rightarrow> nat \<Rightarrow> error + jsobj list" where
  "chunkStep props store acc v index =
     (case acc of
        Inl e \<Rightarrow> Inl e
      | Inr results \<Rightarrow>
          (let propertyIndex = index mod length props;
               results1 = (if propertyIndex = 0 then results @ [[]] else results)
           in case rev results1 of
                [] \<Rightarrow> Inl TypeError
              | result # before \<Rightarrow> Inr (rev before @ [store (props ! propertyIndex) v result])))"

definition storeRequired :: "string \<Rightarrow> jsval \<Rightarrow> jsobj \<Rightarrow> jsobj" where
  "storeRequired p v r = AList.update p v r"

definition storeOptional :: "string \<Rightarrow> jsval \<Rightarrow> jsobj \<Rightarrow> jsobj" where
  "storeOptional p v r =
     (if truthy v \<and> hasOwnProperty v p then AList.update p (jsGet v p) r else r)"

text \<open>The object after storing the answers \<open>vs\<close> for the properties \<open>ps\<close>, one by one.\<close>

definition fill ::
  "(string \<Rightarrow> jsval \<Rightarrow> jsobj \<Rightarrow> jsobj) \<Rightarrow> string list \<Rightarrow> jsval list \<Rightarrow> jsobj \<Rightarrow> jsobj" where
  "fill store ps vs cur = foldl (\<lambda>r (p, v). store p v r) cur (zip ps vs)"

text \<open>The answers for reference \<open>j\<close> among the answers for all references, \<open>k\<close> each.\<close>

definition chunk :: "nat \<Rightarrow> 'a list \<Rightarrow> nat \<Rightarrow> 'a list" where
  "chunk k vs j = take k (drop (j * k) vs)"

lemma requiredStep_chunkStep: "requiredStep = chunkStep layerProperties storeRequired"
  by (intro ext)
    (simp add: requiredStep_def chunkStep_def storeRequired_def Let_def
      split: sum.split list.split)

lemma optionalStep_chunkStep: "optionalStep = chunkStep optionalLayerProperties storeOptional"
  by (intro ext)
    (simp add: optionalStep_def chunkStep_def storeOptional_def Let_def
      split: sum.split list.split)

text \<open>
  Inside a chunk the answer goes to the last object; at the start of a chunk a new object
  is pushed first. So the last object is never missing, and a run of answers that stays
  within one chunk only fills the last object.
\<close>

lemma chunkStep_last:
  "index mod length props \<noteq> 0 \<Longrightarrow>
   chunkStep props store (Inr (pre @ [cur])) v index =
   Inr (pre @ [store (props ! (index mod length props)) v cur])"
  by (simp add: chunkStep_def)

lemma chunkStep_push:
  "index mod length props = 0 \<Longrightarrow>
   chunkStep props store (Inr pre) v index = Inr (pre @ [store (props ! 0) v []])"
  by (simp add: chunkStep_def)

lemma reduceFrom_partial:
  "0 < f \<Longrightarrow> f + length vs \<le> length props \<Longrightarrow> i mod length props = f \<or> vs = [] \<Longrightarrow>
   reduceFrom (chunkStep props store) (Inr (pre @ [cur])) i vs =
   Inr (pre @ [fill store (drop f props) vs cur])"
proof (induction vs arbitrary: f cur i)
  case Nil
  then show ?case by (simp add: fill_def)
next
  case (Cons v vs)
  from Cons.prems have f: "f < length props" and m: "i mod length props = f" by auto
  have step: "chunkStep props store (Inr (pre @ [cur])) v i = Inr (pre @ [store (props ! f) v cur])"
    using chunkStep_last [of i props store pre cur v] m Cons.prems(1) by simp
  have nxt: "Suc i mod length props = Suc f \<or> vs = []"
  proof (cases "vs = []")
    case True then show ?thesis by simp
  next
    case False
    with Cons.prems have "Suc f < length props" by (cases vs) auto
    with m show ?thesis by (simp add: mod_Suc)
  qed
  have "reduceFrom (chunkStep props store) (Inr (pre @ [store (props ! f) v cur])) (Suc i) vs =
        Inr (pre @ [fill store (drop (Suc f) props) vs (store (props ! f) v cur)])"
    using Cons.IH [of "Suc f" "Suc i" "store (props ! f) v cur"] Cons.prems nxt by simp
  moreover have "fill store (drop f props) (v # vs) cur =
        fill store (drop (Suc f) props) vs (store (props ! f) v cur)"
    using f by (simp add: fill_def Cons_nth_drop_Suc [symmetric])
  ultimately show ?case using step by simp
qed

lemma reduceFrom_chunk:
  assumes "i mod length props = 0" "c \<noteq> []" "length c \<le> length props"
  shows "reduceFrom (chunkStep props store) (Inr pre) i c = Inr (pre @ [fill store props c []])"
proof -
  from assms obtain v vs where c: "c = v # vs" by (cases c) auto
  with assms have k: "0 < length props" by auto
  have nxt: "Suc i mod length props = 1 \<or> vs = []"
  proof (cases "vs = []")
    case True then show ?thesis by simp
  next
    case False
    with assms c have "1 < length props" by (cases vs) auto
    with assms(1) show ?thesis by (simp add: mod_Suc)
  qed
  have "reduceFrom (chunkStep props store) (Inr (pre @ [store (props ! 0) v []])) (Suc i) vs =
        Inr (pre @ [fill store (drop 1 props) vs (store (props ! 0) v [])])"
    using reduceFrom_partial [of 1 vs props "Suc i" store pre "store (props ! 0) v []"] assms c nxt
    by simp
  moreover have "fill store props (v # vs) [] = fill store (drop 1 props) vs (store (props ! 0) v [])"
    using k by (cases props) (simp_all add: fill_def)
  ultimately show ?thesis using c chunkStep_push [OF assms(1), of store pre v] by simp
qed

text \<open>Answers for \<open>n\<close> references are \<open>n\<close> chunks, reduced one after the other.\<close>

lemma reduceFrom_append:
  "reduceFrom f acc i (xs @ ys) = reduceFrom f (reduceFrom f acc i xs) (i + length xs) ys"
  by (induction xs arbitrary: acc i) simp_all

lemma chunk_drop: "chunk k (drop k vs) j = chunk k vs (Suc j)"
  by (simp add: chunk_def add.commute)

lemma reduceFrom_chunks:
  "0 < length props \<Longrightarrow> length vs = n * length props \<Longrightarrow> i mod length props = 0 \<Longrightarrow>
   reduceFrom (chunkStep props store) (Inr pre) i vs =
   Inr (pre @ map (\<lambda>j. fill store props (chunk (length props) vs j) []) [0..<n])"
proof (induction n arbitrary: vs pre i)
  case 0
  then show ?case by simp
next
  case (Suc n)
  let ?k = "length props"
  let ?c = "take ?k vs" and ?r = "drop ?k vs"
  from Suc.prems have lc: "length ?c = ?k" and lr: "length ?r = n * ?k" by simp_all
  have split: "vs = ?c @ ?r" by simp
  have first: "reduceFrom (chunkStep props store) (Inr pre) i ?c = Inr (pre @ [fill store props ?c []])"
  proof -
    from lc Suc.prems(1) have "?c \<noteq> []" by (metis length_0_conv less_numeral_extra(3))
    from reduceFrom_chunk [OF Suc.prems(3) this] lc show ?thesis by simp
  qed
  have rest: "reduceFrom (chunkStep props store) (Inr (pre @ [fill store props ?c []])) (i + ?k) ?r =
      Inr ((pre @ [fill store props ?c []]) @
           map (\<lambda>j. fill store props (chunk ?k ?r j) []) [0..<n])"
    using Suc.IH [of ?r "i + ?k" "pre @ [fill store props ?c []]"] Suc.prems lr by simp
  have "reduceFrom (chunkStep props store) (Inr pre) i vs =
        reduceFrom (chunkStep props store) (reduceFrom (chunkStep props store) (Inr pre) i ?c) (i + length ?c) ?r"
    using reduceFrom_append [of "chunkStep props store" "Inr pre" i ?c ?r] by simp
  also have "\<dots> = Inr ((pre @ [fill store props ?c []]) @
           map (\<lambda>j. fill store props (chunk ?k ?r j) []) [0..<n])"
    using first rest lc by simp
  also have "\<dots> = Inr (pre @ map (\<lambda>j. fill store props (chunk ?k vs j) []) [0..<Suc n])"
    by (simp add: map_upt_Suc chunk_drop del: upt_Suc) (simp add: chunk_def)
  finally show ?case .
qed


text \<open>
  The property names are distinct, so every store appends: the object of a chunk of
  required answers is the list of the properties with their answers, and the object of a
  chunk of optional answers lists the properties whose answer is truthy and owns them.
\<close>

lemma update_fresh: "k \<notin> fst ` set al \<Longrightarrow> AList.update k v al = al @ [(k, v)]"
  by (induction al) auto

lemma fill_required:
  "distinct ps \<Longrightarrow> set ps \<inter> fst ` set cur = {} \<Longrightarrow> length vs = length ps \<Longrightarrow>
   fill storeRequired ps vs cur = cur @ zip ps vs"
proof (induction ps arbitrary: vs cur)
  case Nil
  then show ?case by (simp add: fill_def)
next
  case (Cons p ps)
  then obtain v vs' where vs: "vs = v # vs'" by (cases vs) auto
  from Cons.prems have fresh: "p \<notin> fst ` set cur" by auto
  have "fill storeRequired (p # ps) vs cur = fill storeRequired ps vs' (cur @ [(p, v)])"
    using vs fresh by (simp add: fill_def storeRequired_def update_fresh)
  also have "\<dots> = (cur @ [(p, v)]) @ zip ps vs'"
    using Cons.IH [of "cur @ [(p, v)]" vs'] Cons.prems vs by auto
  finally show ?case using vs by simp
qed

definition optionalEntries :: "string list \<Rightarrow> jsval list \<Rightarrow> jsobj" where
  "optionalEntries ps vs =
     map (\<lambda>(p, v). (p, jsGet v p))
       (filter (\<lambda>(p, v). truthy v \<and> hasOwnProperty v p) (zip ps vs))"

lemma fill_optional:
  "distinct ps \<Longrightarrow> set ps \<inter> fst ` set cur = {} \<Longrightarrow>
   fill storeOptional ps vs cur = cur @ optionalEntries ps vs"
proof (induction ps arbitrary: vs cur)
  case Nil
  then show ?case by (simp add: fill_def optionalEntries_def)
next
  case (Cons p ps)
  show ?case
  proof (cases vs)
    case Nil
    then show ?thesis by (simp add: fill_def optionalEntries_def)
  next
    case (Cons v vs')
    from Cons.prems have fresh: "p \<notin> fst ` set cur" by auto
    let ?cur' = "storeOptional p v cur"
    have cur': "?cur' = cur @ optionalEntries [p] [v]"
      using fresh by (simp add: storeOptional_def optionalEntries_def update_fresh)
    have "set ps \<inter> fst ` set ?cur' = {}"
      using Cons.prems cur' by (auto simp: optionalEntries_def split: if_splits)
    then have "fill storeOptional ps vs' ?cur' = ?cur' @ optionalEntries ps vs'"
      using Cons.IH [of ?cur' vs'] Cons.prems by simp
    moreover have "fill storeOptional (p # ps) vs cur = fill storeOptional ps vs' ?cur'"
      using Cons by (simp add: fill_def)
    ultimately show ?thesis using cur' Cons by (simp add: optionalEntries_def)
  qed
qed

lemma optionalEntries_keys: "fst ` set (optionalEntries ps vs) \<subseteq> set ps"
  by (auto simp: optionalEntries_def dest: set_zip_leftD)

lemma optionalEntries_distinct: "distinct ps \<Longrightarrow> distinct (map fst (optionalEntries ps vs))"
proof -
  assume d: "distinct ps"
  have "map fst (optionalEntries ps vs) =
        map fst (filter (\<lambda>(p, v). truthy v \<and> hasOwnProperty v p) (zip ps vs))"
    by (simp add: optionalEntries_def case_prod_unfold comp_def)
  moreover have "distinct (map fst (zip ps vs))"
    using d by (simp add: map_fst_zip_take)
  ultimately show ?thesis by (simp add: distinct_map_filter)
qed

lemma assign_fresh:
  "distinct (map fst src) \<Longrightarrow> fst ` set src \<inter> fst ` set obj = {} \<Longrightarrow>
   assign obj (Some src) = obj @ src"
proof (induction src arbitrary: obj)
  case Nil
  then show ?case by (simp add: assign_def)
next
  case (Cons kv src)
  obtain k v where kv: "kv = (k, v)" by (cases kv)
  from Cons.prems kv have fresh: "k \<notin> fst ` set obj" by auto
  have "assign obj (Some (kv # src)) = assign (obj @ [(k, v)]) (Some src)"
    using kv fresh by (simp add: assign_def update_fresh)
  also have "\<dots> = (obj @ [(k, v)]) @ src"
    using Cons.IH [of "obj @ [(k, v)]"] Cons.prems kv by auto
  finally show ?case using kv by simp
qed

text \<open>The request list: entry \<open>j * length props + k\<close> asks property \<open>k\<close> of reference
  \<open>j\<close>.\<close>

lemma refObjsOf_concat:
  "refObjsOf props refs = concat (map (\<lambda>r. map (\<lambda>p. \<lparr>reference = r, property = p\<rparr>) props) refs)"
proof -
  have "reduceFrom (\<lambda>acc r i. acc @ map (\<lambda>p. \<lparr>reference = r, property = p\<rparr>) props) pre i refs =
        pre @ concat (map (\<lambda>r. map (\<lambda>p. \<lparr>reference = r, property = p\<rparr>) props) refs)" for pre i
    by (induction refs arbitrary: pre i) simp_all
  then show ?thesis by (simp add: refObjsOf_def reduce_def)
qed

lemma length_refObjsOf: "length (refObjsOf props refs) = length refs * length props"
  by (simp add: refObjsOf_concat length_concat comp_def sum_list_triv)

lemma nth_concat_uniform:
  "(\<And>x. x \<in> set xs \<Longrightarrow> length (f x) = k) \<Longrightarrow> j < length xs \<Longrightarrow> i < k \<Longrightarrow>
   concat (map f xs) ! (j * k + i) = f (xs ! j) ! i"
proof (induction xs arbitrary: j)
  case Nil
  then show ?case by simp
next
  case (Cons x xs)
  show ?case
  proof (cases j)
    case 0
    with Cons.prems show ?thesis by (simp add: nth_append)
  next
    case (Suc j')
    with Cons.prems have "concat (map f xs) ! (j' * k + i) = f (xs ! j') ! i"
      using Cons.IH [of j'] by simp
    with Suc Cons.prems show ?thesis by (simp add: nth_append)
  qed
qed

lemma nth_refObjsOf:
  "j < length refs \<Longrightarrow> k < length props \<Longrightarrow>
   refObjsOf props refs ! (j * length props + k) = \<lparr>reference = refs ! j, property = props ! k\<rparr>"
  using nth_concat_uniform [of refs "\<lambda>r. map (\<lambda>p. \<lparr>reference = r, property = p\<rparr>) props" "length props" j k]
  by (simp add: refObjsOf_concat)


text \<open>The descriptor object of reference \<open>j\<close>: the required properties with their answers,
  then the optional properties that were answered.\<close>

definition layerDescriptor :: "jsval list \<Rightarrow> jsval list \<Rightarrow> nat \<Rightarrow> jsobj" where
  "layerDescriptor vs os j =
     zip layerProperties (chunk (length layerProperties) vs j) @
     optionalEntries optionalLayerProperties (chunk (length optionalLayerProperties) os j)"

lemma distinct_layerProperties: "distinct layerProperties"
  by (simp add: layerProperties_def)

lemma distinct_optionalLayerProperties: "distinct optionalLayerProperties"
  by (simp add: optionalLayerProperties_def)

lemma disjoint_properties: "set layerProperties \<inter> set optionalLayerProperties = {}"
  by (simp add: layerProperties_def optionalLayerProperties_def)

lemma length_chunk: "j < n \<Longrightarrow> length vs = n * k \<Longrightarrow> length (chunk k vs j) = k"
proof -
  assume j: "j < n" and l: "length vs = n * k"
  from j have "Suc j \<le> n" by simp
  then have "Suc j * k \<le> n * k" by (rule mult_le_mono1)
  then have "k \<le> n * k - j * k" by simp
  with l show ?thesis by (simp add: chunk_def)
qed

lemma nth_chunk: "j < n \<Longrightarrow> length vs = n * k \<Longrightarrow> i < k \<Longrightarrow> chunk k vs j ! i = vs ! (j * k + i)"
proof -
  assume j: "j < n" and l: "length vs = n * k" and i: "i < k"
  from j have "Suc j \<le> n" by simp
  then have "Suc j * k \<le> n * k" by (rule mult_le_mono1)
  with i l have "j * k + i < length vs" by simp
  with i show ?thesis by (simp add: chunk_def)
qed

lemma reduce_required:
  assumes "length vs = n * length layerProperties"
  shows "reduce vs requiredStep (Inr []) =
         Inr (map (\<lambda>j. zip layerProperties (chunk (length layerProperties) vs j)) [0..<n])"
proof -
  have k: "0 < length layerProperties" by (simp add: layerProperties_def)
  have "reduce vs requiredStep (Inr []) =
        Inr (map (\<lambda>j. fill storeRequired layerProperties (chunk (length layerProperties) vs j) []) [0..<n])"
    using reduceFrom_chunks [OF k assms, of 0 storeRequired "[]"]
    by (simp add: reduce_def requiredStep_chunkStep)
  moreover have "fill storeRequired layerProperties (chunk (length layerProperties) vs j) [] =
        zip layerProperties (chunk (length layerProperties) vs j)" if "j < n" for j
    using fill_required [OF distinct_layerProperties, of "[]" "chunk (length layerProperties) vs j"]
      length_chunk [OF that assms] by simp
  ultimately show ?thesis by simp
qed

lemma reduce_optional:
  assumes "length os = n * length optionalLayerProperties"
  shows "reduce os optionalStep (Inr []) =
         Inr (map (\<lambda>j. optionalEntries optionalLayerProperties
                          (chunk (length optionalLayerProperties) os j)) [0..<n])"
proof -
  have k: "0 < length optionalLayerProperties" by (simp add: optionalLayerProperties_def)
  have "reduce os optionalStep (Inr []) =
        Inr (map (\<lambda>j. fill storeOptional optionalLayerProperties
                         (chunk (length optionalLayerProperties) os j) []) [0..<n])"
    using reduceFrom_chunks [OF k assms, of 0 storeOptional "[]"]
    by (simp add: reduce_def optionalStep_chunkStep)
  moreover have "fill storeOptional optionalLayerProperties c [] =
        optionalEntries optionalLayerProperties c" for c
    using fill_optional [OF distinct_optionalLayerProperties, of "[]" c] by simp
  ultimately show ?thesis by simp
qed

lemma mapIndexed_upt:
  "mapIndexed (\<lambda>x i. F x (at (map g [0..<n]) i)) (map f [0..<n]) =
   map (\<lambda>j. F (f j) (Some (g j))) [0..<n]"
  by (rule nth_equalityI) (simp_all add: mapIndexed_def at_def)

lemma assign_layerDescriptor:
  "assign (zip layerProperties c) (Some (optionalEntries optionalLayerProperties d)) =
   zip layerProperties c @ optionalEntries optionalLayerProperties d"
proof (rule assign_fresh)
  show "distinct (map fst (optionalEntries optionalLayerProperties d))"
    by (rule optionalEntries_distinct [OF distinct_optionalLayerProperties])
  have "fst ` set (zip layerProperties c) \<subseteq> set layerProperties"
    by (auto dest: set_zip_leftD)
  with optionalEntries_keys [of optionalLayerProperties d] disjoint_properties
  show "fst ` set (optionalEntries optionalLayerProperties d) \<inter>
        fst ` set (zip layerProperties c) = {}"
    by blast
qed

text \<open>With one answer per requested entry, the fetch resolves with exactly these
  descriptors, in the order of the references.\<close>

lemma getLayersByRef_exact:
  assumes "batchGetProperties h (refObjsOf layerProperties refs) = Inr vs"
    and "length vs = length refs * length layerProperties"
    and "batchGetPropertiesContinue h (refObjsOf optionalLayerProperties refs) = Inr os"
    and "length os = length refs * length optionalLayerProperties"
  shows "getLayersByRef h refs = Inr (map (layerDescriptor vs os) [0..<length refs])"
proof -
  let ?req = "\<lambda>j. zip layerProperties (chunk (length layerProperties) vs j)"
  let ?opt = "\<lambda>j. optionalEntries optionalLayerProperties (chunk (length optionalLayerProperties) os j)"
  have "getLayersByRef h refs =
        Inr (mapIndexed (\<lambda>properties index. assign properties (at (map ?opt [0..<length refs]) index))
               (map ?req [0..<length refs]))"
    using assms(1,3) reduce_required [OF assms(2)] reduce_optional [OF assms(4)]
    by (simp add: getLayersByRef_def)
  also have "\<dots> = Inr (map (\<lambda>j. assign (?req j) (Some (?opt j))) [0..<length refs])"
    by (simp only: mapIndexed_upt)
  also have "\<dots> = Inr (map (layerDescriptor vs os) [0..<length refs])"
    by (simp add: assign_layerDescriptor layerDescriptor_def)
  finally show ?thesis .
qed


lemma optionalEntries_Cons:
  "optionalEntries (q # qs) (v # d) =
   (if truthy v \<and> hasOwnProperty v q then [(q, jsGet v q)] else []) @ optionalEntries qs d"
  by (simp add: optionalEntries_def)

lemma map_of_optionalEntries_fresh: "q \<notin> set qs \<Longrightarrow> map_of (optionalEntries qs d) q = None"
  using optionalEntries_keys [of qs d] by (auto simp: map_of_eq_None_iff)

lemma map_of_optionalEntries:
  "distinct qs \<Longrightarrow> length d = length qs \<Longrightarrow> k < length qs \<Longrightarrow>
   map_of (optionalEntries qs d) (qs ! k) =
   (if truthy (d ! k) \<and> hasOwnProperty (d ! k) (qs ! k)
    then Some (jsGet (d ! k) (qs ! k)) else None)"
proof (induction qs arbitrary: d k)
  case Nil
  then show ?case by simp
next
  case (Cons q qs)
  then obtain v d' where d: "d = v # d'" by (cases d) auto
  show ?case
  proof (cases k)
    case 0
    with Cons.prems d show ?thesis
      by (simp add: optionalEntries_Cons map_of_optionalEntries_fresh)
  next
    case (Suc k')
    with Cons.prems have ne: "qs ! k' \<noteq> q" by auto
    from Suc Cons.prems d have
      "map_of (optionalEntries qs d') (qs ! k') =
       (if truthy (d' ! k') \<and> hasOwnProperty (d' ! k') (qs ! k')
        then Some (jsGet (d' ! k') (qs ! k')) else None)"
      using Cons.IH [of d' k'] by simp
    with Suc d ne show ?thesis by (simp add: optionalEntries_Cons)
  qed
qed

lemma map_of_layerDescriptor_required:
  assumes "j < n" "length vs = n * length layerProperties" "k < length layerProperties"
  shows "map_of (layerDescriptor vs os j) (layerProperties ! k) =
         Some (vs ! (j * length layerProperties + k))"
proof -
  let ?c = "chunk (length layerProperties) vs j"
  have lc: "length ?c = length layerProperties" using length_chunk [OF assms(1,2)] .
  have "layerProperties ! k \<notin> set optionalLayerProperties"
    using disjoint_properties assms(3) by (meson disjoint_iff nth_mem)
  then have "map_of (optionalEntries optionalLayerProperties
      (chunk (length optionalLayerProperties) os j)) (layerProperties ! k) = None"
    by (rule map_of_optionalEntries_fresh)
  moreover have "map_of (zip layerProperties ?c) (layerProperties ! k) = Some (?c ! k)"
    using map_of_zip_nth [of layerProperties ?c k] lc distinct_layerProperties assms(3) by simp
  ultimately show ?thesis
    using nth_chunk [OF assms] by (simp add: layerDescriptor_def map_add_def)
qed

lemma map_of_layerDescriptor_optional:
  assumes "j < n" "length os = n * length optionalLayerProperties"
    "k < length optionalLayerProperties"
  shows "map_of (layerDescriptor vs os j) (optionalLayerProperties ! k) =
         (let v = os ! (j * length optionalLayerProperties + k)
          in if truthy v \<and> hasOwnProperty v (optionalLayerProperties ! k)
             then Some (jsGet v (optionalLayerProperties ! k)) else None)"
proof -
  let ?d = "chunk (length optionalLayerProperties) os j"
  have ld: "length ?d = length optionalLayerProperties" using length_chunk [OF assms(1,2)] .
  have "optionalLayerProperties ! k \<notin> set layerProperties"
    using disjoint_properties assms(3) by (meson disjoint_iff nth_mem)
  then have "map_of (zip layerProperties (chunk (length layerProperties) vs j))
      (optionalLayerProperties ! k) = None"
    by (auto simp: map_of_eq_None_iff dest: set_zip_leftD)
  then show ?thesis
    using map_of_optionalEntries [OF distinct_optionalLayerProperties ld assms(3)]
      nth_chunk [OF assms]
    by (simp add: layerDescriptor_def map_add_def Let_def)
qed

text \<open>
  Claim C5. A batched fetch over \<open>N\<close> references whose two host requests are answered
  item by item (one answer per requested entry) resolves with \<open>N\<close> descriptor objects,
  object \<open>j\<close> built from the answers to the entries requested for reference \<open>j\<close>: every
  required property is a key of every object, holding the host's answer; an optional
  property is a key exactly when the per-item answer is truthy and owns it, and is
  otherwise absent from the object (no key, not a null value).
\<close>

theorem getLayersByRef_batched_fetch:
  assumes "batchGetProperties h (refObjsOf layerProperties refs) = Inr vs"
    and "length vs = length (refObjsOf layerProperties refs)"
    and "batchGetPropertiesContinue h (refObjsOf optionalLayerProperties refs) = Inr os"
    and "length os = length (refObjsOf optionalLayerProperties refs)"
  shows "\<exists>objs. getLayersByRef h refs = Inr objs \<and> length objs = length refs \<and>
     (\<forall>j<length refs.
        (\<forall>k<length layerProperties.
           refObjsOf layerProperties refs ! (j * length layerProperties + k) =
             \<lparr>reference = refs ! j, property = layerProperties ! k\<rparr> \<and>
           map_of (objs ! j) (layerProperties ! k) =
             Some (vs ! (j * length layerProperties + k))) \<and>
        (\<forall>k<length optionalLayerProperties.
           refObjsOf optionalLayerProperties refs ! (j * length optionalLayerProperties + k) =
             \<lparr>reference = refs ! j, property = optionalLayerProperties ! k\<rparr> \<and>
           map_of (objs ! j) (optionalLayerProperties ! k) =
             (let v = os ! (j * length optionalLayerProperties + k)
              in if truthy v \<and> hasOwnProperty v (optionalLayerProperties ! k)
                 then Some (jsGet v (optionalLayerProperties ! k)) else None)))"
proof -
  from assms(2) have lvs: "length vs = length refs * length layerProperties"
    by (simp add: length_refObjsOf)
  from assms(4) have los: "length os = length refs * length optionalLayerProperties"
    by (simp add: length_refObjsOf)
  let ?objs = "map (layerDescriptor vs os) [0..<length refs]"
  have "getLayersByRef h refs = Inr ?objs"
    by (rule getLayersByRef_exact [OF assms(1) lvs assms(3) los])
  moreover have "length ?objs = length refs" by simp
  moreover have "\<forall>j<length refs.
        (\<forall>k<length layerProperties.
           refObjsOf layerProperties refs ! (j * length layerProperties + k) =
             \<lparr>reference = refs ! j, property = layerProperties ! k\<rparr> \<and>
           map_of (?objs ! j) (layerProperties ! k) =
             Some (vs ! (j * length layerProperties + k))) \<and>
        (\<forall>k<length optionalLayerProperties.
           refObjsOf optionalLayerProperties refs ! (j * length optionalLayerProperties + k) =
             \<lparr>reference = refs ! j, property = optionalLayerProperties ! k\<rparr> \<and>
           map_of (?objs ! j) (optionalLayerProperties ! k) =
             (let v = os ! (j * length optionalLayerProperties + k)
              in if truthy v \<and> hasOwnProperty v (optionalLayerProperties ! k)
                 then Some (jsGet v (optionalLayerProperties ! k)) else None))"
    using lvs los
    by (simp add: nth_refObjsOf map_of_layerDescriptor_required map_of_layerDescriptor_optional
        del: upt_Suc)
  ultimately show ?thesis by blast
qed

text \<open>
  A host for the examples: every required property is answered with its own name, every
  optional property but \<^verbatim>\<open>artboard\<close> with an object owning it, every play object with
  the group descriptor of a new group.
\<close>

definition exampleHost :: host where
  "exampleHost =
     \<lparr>batchGetProperties = (\<lambda>rs. Inr (map (\<lambda>r. JStr (property r)) rs)),
      batchGetPropertiesContinue =
        (\<lambda>rs. Inr (map (\<lambda>r. if property r = ''artboard'' then JNull
                               else JObj [(property r, JBool True)]) rs)),
      playObject =
        (\<lambda>p. Inr (JObj [(''layerSectionStart'', JNum 7), (''layerSectionEnd'', JNum 8),
                          (''name'', JStr ''Group 1'')])),
      getProperty = (\<lambda>r p. Inr (JArr [JObj [(''index'', JNum 1)]])),
      setSuppressTargetPaths = (\<lambda>b. Inr JUndefined)\<rparr>"

theorem getLayersByRef_batched_fetch_witness:
  "\<exists>objs. getLayersByRef exampleHost [[DocumentById 1, LayerById 2], [DocumentById 1, LayerById 3]]
       = Inr objs \<and>
     length objs = 2 \<and>
     map_of (objs ! 1) ''name'' = Some (JStr ''name'') \<and>
     map_of (objs ! 1) ''textKey'' = Some (JBool True) \<and>
     map_of (objs ! 1) ''artboard'' = None"
proof -
  let ?refs = "[[DocumentById 1, LayerById 2], [DocumentById 1, LayerById 3]]"
  let ?vs = "map (\<lambda>r. JStr (property r)) (refObjsOf layerProperties ?refs)"
  let ?os = "map (\<lambda>r. if property r = ''artboard'' then JNull
                        else JObj [(property r, JBool True)])
               (refObjsOf optionalLayerProperties ?refs)"
  from getLayersByRef_batched_fetch [of exampleHost ?refs ?vs ?os]
  obtain objs where r: "getLayersByRef exampleHost ?refs = Inr objs" "length objs = 2"
    and all: "\<forall>j<length ?refs.
        (\<forall>k<length layerProperties.
           refObjsOf layerProperties ?refs ! (j * length layerProperties + k) =
             \<lparr>reference = ?refs ! j, property = layerProperties ! k\<rparr> \<and>
           map_of (objs ! j) (layerProperties ! k) =
             Some (?vs ! (j * length layerProperties + k))) \<and>
        (\<forall>k<length optionalLayerProperties.
           refObjsOf optionalLayerProperties ?refs ! (j * length optionalLayerProperties + k) =
             \<lparr>reference = ?refs ! j, property = optionalLayerProperties ! k\<rparr> \<and>
           map_of (objs ! j) (optionalLayerProperties ! k) =
             (let v = ?os ! (j * length optionalLayerProperties + k)
              in if truthy v \<and> hasOwnProperty v (optionalLayerProperties ! k)
                 then Some (jsGet v (optionalLayerProperties ! k)) else None))"
    by (auto simp: exampleHost_def)
  have l1: "length (refObjsOf layerProperties ?refs) = 20"
    and l2: "length (refObjsOf optionalLayerProperties ?refs) = 28"
    by (simp_all add: length_refObjsOf layerProperties_def optionalLayerProperties_def)
  have j1: "(1::nat) < length ?refs" by simp
  note req = all [rule_format, OF j1, THEN conjunct1, rule_format]
  note opt = all [rule_format, OF j1, THEN conjunct2, rule_format]
  from req [of 1] l1 have "map_of (objs ! 1) ''name'' = Some (JStr ''name'')"
    by (simp add: layerProperties_def)
  moreover from opt [of 2] l2 have "map_of (objs ! 1) ''textKey'' = Some (JBool True)"
    by (simp add: optionalLayerProperties_def)
  moreover from opt [of 9] l2 have "map_of (objs ! 1) ''artboard'' = None"
    by (simp add: optionalLayerProperties_def)
  ultimately show ?thesis using r by blast
qed

section \<open>Document model\<close>

text \<open>
  The models \<^verbatim>\<open>js/models/layer\<close>, \<^verbatim>\<open>layerstructure\<close> and \<^verbatim>\<open>document\<close> are not
  among the sources; the commands read the following properties of them. A layer's
  \<open>bounds\<close> may be absent (null), and only the \<open>area\<close> of a bounds object is read.
\<close>

record bounds =
  area :: int

record layer =
  layer_id :: nat
  isBackground :: bool
  bounds :: "bounds option"
  selected :: bool

text \<open>\<^verbatim>\<open>document.layers\<close>: the flat list \<^verbatim>\<open>all\<close> and the flag \<^verbatim>\<open>hasArtboard\<close>.\<close>

record layerStructure =
  all_layers :: "layer list"
  hasArtboard :: bool

record document =
  doc_id :: nat
  unsupported :: bool
  hasBackgroundLayer :: bool
  layers :: layerStructure

text \<open>Modelled from the spec: \<^verbatim>\<open>document.layers.byID\<close>, the index from layer ID to
  layer (missing from the sources): the layer of the flat list with that ID, if any.\<close>

definition byID :: "layerStructure \<Rightarrow> nat \<Rightarrow> layer option" where
  "byID ls i = find (\<lambda>l. layer_id l = i) (all_layers ls)"

text \<open>Modelled from the spec: \<^verbatim>\<open>document.layers.selected\<close>, the current selection
  (missing from the sources): the selected layers of the flat list, in its order.\<close>

definition selectedLayers :: "layerStructure \<Rightarrow> layer list" where
  "selectedLayers ls = filter selected (all_layers ls)"

text \<open>\<^verbatim>\<open>list.first()\<close> of an immutable list: undefined when the list is empty.\<close>

definition first :: "'a list \<Rightarrow> 'a option" where
  "first xs = (case xs of [] \<Rightarrow> None | x # rest \<Rightarrow> Some x)"

section \<open>Events and command results\<close>

record addLayersPayload =
  documentID :: nat
  layerIDs :: "nat list"
  descriptors :: "jsobj list"
  selected_flag :: jsval
  replace_flag :: jsval

text \<open>The events the modelled commands dispatch to the stores, with their payloads.\<close>

datatype event =
    ADD_LAYERS addLayersPayload
  | RESET_LAYERS_BY_INDEX nat "jsobj list"
  | SELECT_LAYERS_BY_ID nat "nat list"
  | SELECT_LAYERS_BY_INDEX nat "jsval list"
  | GROUP_SELECTED nat jsval jsval jsval

text \<open>
  What running a command does: the host requests it issues, the events it dispatches,
  and how its promise settles (\<open>Inr\<close> the value it resolves with, \<open>Inl\<close> the rejection).
\<close>

record command =
  requests :: "hostRequest list"
  dispatched :: "event list"
  outcome :: "error + jsval"

text \<open>\<^verbatim>\<open>Promise.resolve()\<close>: nothing requested, nothing dispatched.\<close>

definition resolved :: command where
  "resolved = \<lparr>requests = [], dispatched = [], outcome = Inr JUndefined\<rparr>"

text \<open>The two requests \<^verbatim>\<open>_getLayersByRef\<close> issues for a list of references.\<close>

definition getLayersByRefRequests :: "reference list list \<Rightarrow> hostRequest list" where
  "getLayersByRefRequests references =
     [BatchGetProperties (refObjsOf layerProperties references) False,
      BatchGetProperties (refObjsOf optionalLayerProperties references) True]"

section \<open>Adding layers\<close>

text \<open>\<^verbatim>\<open>layerSpec\<close> is a layer ID or an array of layer IDs.\<close>

datatype layerSpec =
    SpecNumber nat
  | SpecArray "nat list"

text \<open>
  The default replacement logic of \<^verbatim>\<open>addLayersCommand\<close>, run when \<^verbatim>\<open>replace\<close> is
  falsy. The chain of \<^verbatim>\<open>&&\<close> yields its first falsy operand, or its last operand:
  undefined for a missing layer, null for missing bounds, otherwise a boolean.
\<close>

definition replaceDefault :: "document \<Rightarrow> nat list \<Rightarrow> jsval" where
  "replaceDefault doc spec =
     (if length spec = 1 \<and>
         (if hasArtboard (layers doc) then length (all_layers (layers doc)) = 3
          else length (all_layers (layers doc)) = 1)
      then
        (case (if hasArtboard (layers doc) then byID (layers doc) 2
               else first (all_layers (layers doc))) of
           None \<Rightarrow> JUndefined
         | Some l \<Rightarrow>
             if isBackground l then JBool False
             else (case bounds l of
                     None \<Rightarrow> JNull
                   | Some b \<Rightarrow>
                       if area b \<noteq> 0 then JBool False
                       else if \<not> hasArtboard (layers doc) then JBool False
                       else JBool (selected l)))
      else JBool False)"

text \<open>
  \<^verbatim>\<open>addLayersCommand(document, layerSpec, selected, replace)\<close>; an omitted argument is
  \<open>JUndefined\<close>. The promise resolves with the value of the \<^verbatim>\<open>then\<close> callback, which
  returns nothing.
\<close>

definition layerSpecList :: "layerSpec \<Rightarrow> nat list" where
  "layerSpecList layerSpec = (case layerSpec of SpecNumber n \<Rightarrow> [n] | SpecArray ns \<Rightarrow> ns)"

definition addLayersRefs :: "document \<Rightarrow> nat list \<Rightarrow> reference list list" where
  "addLayersRefs doc spec = map (\<lambda>layerID. [DocumentById (doc_id doc), LayerById layerID]) spec"

definition addLayersCommand :: "host \<Rightarrow> document \<Rightarrow> layerSpec \<Rightarrow> jsval \<Rightarrow> jsval \<Rightarrow> command" where
  "addLayersCommand h doc layerSpec sel replace =
     (let spec = layerSpecList layerSpec;
          sel1 = (if sel = JUndefined then JBool True else sel);
          replace1 = (if \<not> truthy replace then replaceDefault doc spec else replace);
          layerRefs = addLayersRefs doc spec
      in case getLayersByRef h layerRefs of
           Inl e \<Rightarrow>
             \<lparr>requests = getLayersByRefRequests layerRefs, dispatched = [], outcome = Inl e\<rparr>
         | Inr ds \<Rightarrow>
             \<lparr>requests = getLayersByRefRequests layerRefs,
              dispatched =
                [ADD_LAYERS \<lparr>documentID = doc_id doc, layerIDs = spec, descriptors = ds,
                             selected_flag = sel1, replace_flag = replace1\<rparr>],
              outcome = Inr JUndefined\<rparr>)"

text \<open>The \<^verbatim>\<open>replace\<close> field of the dispatched \<^verbatim>\<open>ADD_LAYERS\<close> payload, if one was
  dispatched.\<close>

definition dispatchedReplace :: "command \<Rightarrow> jsval option" where
  "dispatchedReplace c =
     (case dispatched c of
        [ADD_LAYERS p] \<Rightarrow> Some (replace_flag p)
      | _ \<Rightarrow> None)"

section \<open>Resetting layers by index\<close>

text \<open>\<^verbatim>\<open>layerIndexes\<close> is an iterable of indices or a single index.\<close>

datatype layerIndexes =
    IndexNumber int
  | IndexIterable "int list"

text \<open>The layer references \<^verbatim>\<open>resetLayersByIndexCommand\<close> builds: the index is adjusted
  by the existence of a background layer.\<close>

definition indexList :: "layerIndexes \<Rightarrow> int list" where
  "indexList layerIndexes =
     (case layerIndexes of IndexNumber i \<Rightarrow> [i] | IndexIterable idxs \<Rightarrow> idxs)"

definition hostIndex :: "document \<Rightarrow> int \<Rightarrow> int" where
  "hostIndex doc idx = (if hasBackgroundLayer doc then idx - 1 else idx)"

definition resetLayersByIndexRefs :: "document \<Rightarrow> layerIndexes \<Rightarrow> reference list list" where
  "resetLayersByIndexRefs doc layerIndexes =
     map (\<lambda>idx. (let index = hostIndex doc idx
                  in [DocumentById (doc_id doc), LayerByIndex index]))
         (indexList layerIndexes)"

definition resetLayersByIndexCommand :: "host \<Rightarrow> document \<Rightarrow> layerIndexes \<Rightarrow> command" where
  "resetLayersByIndexCommand h doc layerIndexes =
     (let layerRefs = resetLayersByIndexRefs doc layerIndexes
      in case getLayersByRef h layerRefs of
           Inl e \<Rightarrow>
             \<lparr>requests = getLayersByRefRequests layerRefs, dispatched = [], outcome = Inl e\<rparr>
         | Inr ds \<Rightarrow>
             \<lparr>requests = getLayersByRefRequests layerRefs,
              dispatched = [RESET_LAYERS_BY_INDEX (doc_id doc) ds],
              outcome = Inr JUndefined\<rparr>)"

text \<open>
  \<^verbatim>\<open>_getLayerIDsForDocument(doc)\<close> on the host's document descriptor: the host
  indices it enumerates run from \<^verbatim>\<open>numberOfLayers\<close> down to 0 when the document has a
  background layer, and down to 1 when it has none
  (\<^verbatim>\<open>_.range(layerCount, startIndex - 1, -1)\<close>).
\<close>

record documentDescriptor =
  documentID_d :: nat
  numberOfLayers :: int
  hasBackgroundLayer_d :: bool

definition getLayerIDsForDocumentRefs :: "documentDescriptor \<Rightarrow> reference list list" where
  "getLayerIDsForDocumentRefs doc =
     (let layerCount = numberOfLayers doc;
          startIndex = (if hasBackgroundLayer_d doc then 0 else 1)
      in map (\<lambda>i. [DocumentById (documentID_d doc), LayerByIndex i])
           (rev [startIndex..layerCount]))"

section \<open>Grouping, selecting and deselecting\<close>

definition PS_MAX_NEST_DEPTH :: nat where
  "PS_MAX_NEST_DEPTH = 9"

text \<open>
  \<^verbatim>\<open>groupSelectedLayersCommand(document)\<close>. The depth query
  \<^verbatim>\<open>document.layers.maxDescendantDepth\<close> belongs to the layer structure model, which
  is not among the sources, and is a parameter. Reading the group descriptor of a null
  or undefined answer is a TypeError inside the promise chain.
\<close>

definition groupSelectedLayersCommand ::
  "host \<Rightarrow> (layerStructure \<Rightarrow> layer \<Rightarrow> nat) \<Rightarrow> document \<Rightarrow> command" where
  "groupSelectedLayersCommand h maxDescendantDepth doc =
     (let sel = selectedLayers (layers doc)
      in if length sel = 0 then resolved
         else
           (let nestingLimitExceeded =
                  list_ex (\<lambda>l. maxDescendantDepth (layers doc) l > PS_MAX_NEST_DEPTH) sel
            in if nestingLimitExceeded then resolved
               else
                 (case playObject h GroupSelected of
                    Inl e \<Rightarrow>
                      \<lparr>requests = [PlayObject GroupSelected], dispatched = [], outcome = Inl e\<rparr>
                  | Inr groupResult \<Rightarrow>
                      if groupResult = JUndefined \<or> groupResult = JNull
                      then \<lparr>requests = [PlayObject GroupSelected], dispatched = [],
                            outcome = Inl TypeError\<rparr>
                      else
                        \<lparr>requests = [PlayObject GroupSelected],
                         dispatched =
                           [GROUP_SELECTED (doc_id doc)
                              (jsGet groupResult ''layerSectionStart'')
                              (jsGet groupResult ''layerSectionEnd'')
                              (jsGet groupResult ''name'')],
                         outcome = Inr JUndefined\<rparr>)))"

text \<open>
  The optional \<^verbatim>\<open>document\<close> argument of \<^verbatim>\<open>selectAll\<close> and \<^verbatim>\<open>deselectAll\<close>: when
  it is undefined the application store's current document is taken, which may be null.
\<close>

datatype documentArg =
    NoArgument
  | NullDocument
  | Document document

definition documentOrCurrent :: "document option \<Rightarrow> documentArg \<Rightarrow> document option" where
  "documentOrCurrent currentDocument arg =
     (case arg of
        NoArgument \<Rightarrow> currentDocument
      | NullDocument \<Rightarrow> None
      | Document d \<Rightarrow> Some d)"

text \<open>\<^verbatim>\<open>layers.all.size === 1 && layers.all.first().isBackground\<close>\<close>

definition onlyBackground :: "document \<Rightarrow> bool" where
  "onlyBackground doc =
     (length (all_layers (layers doc)) = 1 \<and>
      (case first (all_layers (layers doc)) of None \<Rightarrow> False | Some l \<Rightarrow> isBackground l))"

text \<open>
  \<^verbatim>\<open>deselectAllLayersCommand(document)\<close>: past the guard, the host request and the
  local dispatch are both issued, and the joined promise carries the host's answer.
\<close>

definition deselectAllLayersCommand :: "host \<Rightarrow> document option \<Rightarrow> documentArg \<Rightarrow> command" where
  "deselectAllLayersCommand h currentDocument arg =
     (case documentOrCurrent currentDocument arg of
        None \<Rightarrow> resolved
      | Some doc \<Rightarrow>
          if unsupported doc \<or> onlyBackground doc then resolved
          else
            \<lparr>requests = [PlayObject DeselectAll],
             dispatched = [SELECT_LAYERS_BY_ID (doc_id doc) []],
             outcome =
               (case playObject h DeselectAll of
                  Inl e \<Rightarrow> Inl e
                | Inr v \<Rightarrow> Inr (JArr [JUndefined, v]))\<rparr>)"

text \<open>\<^verbatim>\<open>layerSpec\<close> of \<^verbatim>\<open>selectLayerCommand\<close>: one layer or an iterable of layers.\<close>

datatype layerOrLayers =
    OneLayer layer
  | ManyLayers "layer list"

text \<open>\<^verbatim>\<open>_.pluck(collection, key)\<close>\<close>

definition pluck :: "jsval \<Rightarrow> string \<Rightarrow> jsval list" where
  "pluck c key =
     (case c of
        JArr xs \<Rightarrow> map (\<lambda>x. jsGet x key) xs
      | JObj kvs \<Rightarrow> map (\<lambda>(k, x). jsGet x key) kvs
      | _ \<Rightarrow> [])"

text \<open>
  \<^verbatim>\<open>selectLayerCommand(document, layerSpec, modifier)\<close>: without a modifier (or with
  \<^verbatim>\<open>select\<close>) the selection is dispatched optimistically; with another modifier the
  host's target layers are read back after the host call and dispatched by index.
\<close>

definition selectLayerCommand ::
  "host \<Rightarrow> document \<Rightarrow> layerOrLayers \<Rightarrow> string option \<Rightarrow> command" where
  "selectLayerCommand h doc layerSpec modifier =
     (let spec = (case layerSpec of OneLayer l \<Rightarrow> [l] | ManyLayers ls \<Rightarrow> ls)
      in if unsupported doc then resolved
         else
           (let plain = (modifier = None \<or> modifier = Some [] \<or> modifier = Some ''select'');
                optimistic =
                  (if plain then [SELECT_LAYERS_BY_ID (doc_id doc) (map layer_id spec)] else []);
                layerRef = DocumentById (doc_id doc) # map (\<lambda>l. LayerById (layer_id l)) spec;
                selectObj = Select layerRef False modifier
            in case playObject h selectObj of
                 Inl e \<Rightarrow>
                   \<lparr>requests = [PlayObject selectObj], dispatched = optimistic, outcome = Inl e\<rparr>
               | Inr v \<Rightarrow>
                   if plain
                   then \<lparr>requests = [PlayObject selectObj], dispatched = optimistic,
                         outcome = Inr (JArr [JUndefined, JUndefined])\<rparr>
                   else
                     (case getProperty h (DocumentById (doc_id doc)) ''targetLayers'' of
                        Inl e \<Rightarrow>
                          \<lparr>requests = [PlayObject selectObj,
                                         GetProperty (DocumentById (doc_id doc)) ''targetLayers''],
                           dispatched = optimistic,
                           outcome = Inr (JArr [JUndefined, JUndefined])\<rparr>
                      | Inr targetLayers \<Rightarrow>
                          \<lparr>requests = [PlayObject selectObj,
                                         GetProperty (DocumentById (doc_id doc)) ''targetLayers''],
                           dispatched =
                             optimistic @
                             [SELECT_LAYERS_BY_INDEX (doc_id doc) (pluck targetLayers ''index'')],
                           outcome = Inr (JArr [JUndefined, JUndefined])\<rparr>)))"

text \<open>\<^verbatim>\<open>selectAllLayersCommand(document)\<close>: past the guard, control is transferred to
  \<^verbatim>\<open>selectLayer\<close> with all the layers of the document and no modifier.\<close>

definition selectAllLayersCommand :: "host \<Rightarrow> document option \<Rightarrow> documentArg \<Rightarrow> command" where
  "selectAllLayersCommand h currentDocument arg =
     (case documentOrCurrent currentDocument arg of
        None \<Rightarrow> resolved
      | Some doc \<Rightarrow>
          if unsupported doc \<or> all_layers (layers doc) = [] then resolved
          else selectLayerCommand h doc (ManyLayers (all_layers (layers doc))) None)"

section \<open>Properties of the layer commands\<close>

subsection \<open>The replacement decision of \<^verbatim>\<open>addLayers\<close>\<close>

lemma exampleHost_resolves: "\<exists>ds. getLayersByRef exampleHost refs = Inr ds"
  using getLayersByRef_exact [of exampleHost refs
      "map (\<lambda>r. JStr (property r)) (refObjsOf layerProperties refs)"
      "map (\<lambda>r. if property r = ''artboard'' then JNull else JObj [(property r, JBool True)])
         (refObjsOf optionalLayerProperties refs)"]
  by (simp add: exampleHost_def length_refObjsOf)

lemma dispatchedReplace_addLayers:
  "getLayersByRef h (addLayersRefs doc (layerSpecList layerSpec)) = Inr ds \<Longrightarrow>
   dispatchedReplace (addLayersCommand h doc layerSpec sel replace) =
   Some (if \<not> truthy replace then replaceDefault doc (layerSpecList layerSpec) else replace)"
  by (simp add: addLayersCommand_def dispatchedReplace_def Let_def)

lemma dispatchedReplace_rejected:
  "getLayersByRef h (addLayersRefs doc (layerSpecList layerSpec)) = Inl e \<Longrightarrow>
   dispatchedReplace (addLayersCommand h doc layerSpec sel replace) = None"
  by (simp add: addLayersCommand_def dispatchedReplace_def Let_def)

text \<open>
  The default decision is truthy exactly when one layer is added to an artboard document of
  three layers whose layer 2 is a selected, zero-area, non-background layer; it is then
  the boolean true. Without an artboard it is never truthy, whatever the single layer is.
\<close>

lemma replaceDefault_truthy_iff:
  "truthy (replaceDefault doc spec) \<longleftrightarrow>
   length spec = 1 \<and> hasArtboard (layers doc) \<and> length (all_layers (layers doc)) = 3 \<and>
   (\<exists>l b. byID (layers doc) 2 = Some l \<and> \<not> isBackground l \<and> bounds l = Some b \<and>
          area b = 0 \<and> selected l)"
  by (auto simp: replaceDefault_def split: option.splits if_splits)

lemma replaceDefault_truthy_True: "truthy (replaceDefault doc spec) \<Longrightarrow> replaceDefault doc spec = JBool True"
  by (auto simp: replaceDefault_def split: option.splits if_splits)

lemma replaceDefault_no_artboard:
  "\<not> hasArtboard (layers doc) \<Longrightarrow> \<not> truthy (replaceDefault doc spec)"
  by (simp add: replaceDefault_truthy_iff)

text \<open>The new-document state without an artboard: one empty, unselected, non-background
  layer.\<close>

definition placeholderDocument :: document where
  "placeholderDocument =
     \<lparr>doc_id = 1, unsupported = False, hasBackgroundLayer = False,
      layers = \<lparr>all_layers = [\<lparr>layer_id = 5, isBackground = False,
                               bounds = Some \<lparr>area = 0\<rparr>, selected = False\<rparr>],
                hasArtboard = False\<rparr>\<rparr>"

text \<open>
  Claim C1. With no replace flag, adding the single layer 6 to a document without an
  artboard that holds exactly one zero-area, non-background, unselected layer (layer 5)
  dispatches \<^verbatim>\<open>ADD_LAYERS\<close> with \<open>replace = false\<close>: the last operand of the decision,
  \<^verbatim>\<open>hasArtboard && first.selected\<close>, is false on every document without an artboard.
\<close>

theorem addLayers_placeholder_without_artboard:
  "dispatchedReplace (addLayersCommand exampleHost placeholderDocument (SpecNumber 6) JUndefined JUndefined)
     = Some (JBool False)"
proof -
  obtain ds where "getLayersByRef exampleHost
      (addLayersRefs placeholderDocument (layerSpecList (SpecNumber 6))) = Inr ds"
    using exampleHost_resolves by blast
  from dispatchedReplace_addLayers [OF this, of JUndefined JUndefined]
  show ?thesis
    by (simp add: replaceDefault_def placeholderDocument_def layerSpecList_def first_def)
qed

text \<open>The new-document state with an artboard: the artboard, its empty selected layer 2,
  and the end marker of the artboard group.\<close>

definition artboardDocument :: document where
  "artboardDocument =
     \<lparr>doc_id = 1, unsupported = False, hasBackgroundLayer = False,
      layers = \<lparr>all_layers =
                  [\<lparr>layer_id = 1, isBackground = False, bounds = Some \<lparr>area = 100\<rparr>,
                    selected = False\<rparr>,
                   \<lparr>layer_id = 2, isBackground = False, bounds = Some \<lparr>area = 0\<rparr>,
                    selected = True\<rparr>,
                   \<lparr>layer_id = 3, isBackground = False, bounds = None, selected = False\<rparr>],
                hasArtboard = True\<rparr>\<rparr>"

text \<open>
  Claim C10. When the property fetch resolves, an explicit \<open>replace = false\<close> runs the
  command exactly as an omitted \<open>replace\<close> does; every falsy \<open>replace\<close> dispatches the
  default decision, so when that decision is truthy the payload carries \<open>replace = true\<close>
  although the caller passed false; a truthy \<open>replace\<close> is dispatched as it was passed.
\<close>

theorem addLayers_falsy_replace_runs_default:
  assumes "getLayersByRef h (addLayersRefs doc (layerSpecList layerSpec)) = Inr ds"
  shows "addLayersCommand h doc layerSpec sel (JBool False) =
           addLayersCommand h doc layerSpec sel JUndefined \<and>
         (\<not> truthy replace \<longrightarrow>
            dispatchedReplace (addLayersCommand h doc layerSpec sel replace) =
              Some (replaceDefault doc (layerSpecList layerSpec))) \<and>
         (truthy (replaceDefault doc (layerSpecList layerSpec)) \<longrightarrow>
            dispatchedReplace (addLayersCommand h doc layerSpec sel (JBool False)) =
              Some (JBool True)) \<and>
         (truthy replace \<longrightarrow>
            dispatchedReplace (addLayersCommand h doc layerSpec sel replace) = Some replace)"
proof -
  have "addLayersCommand h doc layerSpec sel (JBool False) =
        addLayersCommand h doc layerSpec sel JUndefined"
    by (simp add: addLayersCommand_def)
  moreover have "\<not> truthy replace \<longrightarrow>
      dispatchedReplace (addLayersCommand h doc layerSpec sel replace) =
        Some (replaceDefault doc (layerSpecList layerSpec))"
    using dispatchedReplace_addLayers [OF assms] by simp
  moreover have "truthy (replaceDefault doc (layerSpecList layerSpec)) \<longrightarrow>
      dispatchedReplace (addLayersCommand h doc layerSpec sel (JBool False)) = Some (JBool True)"
    using dispatchedReplace_addLayers [OF assms, of sel "JBool False"]
    by (simp add: replaceDefault_truthy_True)
  moreover have "truthy replace \<longrightarrow>
      dispatchedReplace (addLayersCommand h doc layerSpec sel replace) = Some replace"
    using dispatchedReplace_addLayers [OF assms] by simp
  ultimately show ?thesis by blast
qed

theorem addLayers_falsy_replace_runs_default_witness:
  "dispatchedReplace (addLayersCommand exampleHost artboardDocument (SpecNumber 6) (JBool True) (JBool False))
     = Some (JBool True) \<and>
   addLayersCommand exampleHost artboardDocument (SpecNumber 6) (JBool True) (JBool False) =
   addLayersCommand exampleHost artboardDocument (SpecNumber 6) (JBool True) JUndefined \<and>
   dispatchedReplace (addLayersCommand exampleHost placeholderDocument (SpecArray [6, 7]) (JBool True) (JNum 1))
     = Some (JNum 1)"
proof -
  obtain ds where r: "getLayersByRef exampleHost
      (addLayersRefs artboardDocument (layerSpecList (SpecNumber 6))) = Inr ds"
    using exampleHost_resolves by blast
  obtain ds' where r': "getLayersByRef exampleHost
      (addLayersRefs placeholderDocument (layerSpecList (SpecArray [6, 7]))) = Inr ds'"
    using exampleHost_resolves by blast
  have t: "truthy (replaceDefault artboardDocument (layerSpecList (SpecNumber 6)))"
    by (simp add: replaceDefault_def artboardDocument_def layerSpecList_def byID_def)
  have n: "truthy (JNum 1)" by simp
  from addLayers_falsy_replace_runs_default [OF r, of "JBool True" "JBool False"] t
    addLayers_falsy_replace_runs_default [OF r', of "JBool True" "JNum 1"] n
  show ?thesis by blast
qed

subsection \<open>Index translation of \<^verbatim>\<open>resetLayersByIndex\<close>\<close>

text \<open>A document without a background layer, and a flat document: one background layer.\<close>

definition documentWithoutBackground :: document where
  "documentWithoutBackground =
     \<lparr>doc_id = 1, unsupported = False, hasBackgroundLayer = False,
      layers = \<lparr>all_layers = [], hasArtboard = False\<rparr>\<rparr>"

definition documentWithBackground :: document where
  "documentWithBackground =
     \<lparr>doc_id = 1, unsupported = False, hasBackgroundLayer = True,
      layers = \<lparr>all_layers = [\<lparr>layer_id = 1, isBackground = True, bounds = None,
                               selected = False\<rparr>], hasArtboard = False\<rparr>\<rparr>"

text \<open>
  Against claim C4 as stated: for a document without a background layer, index 3 gives
  the host reference by index 3, not by index 2; for a document with a background
  layer, index 3 gives the host reference by index 2, not by index 3.
\<close>

theorem resetLayersByIndex_absent_background_counterexample:
  "resetLayersByIndexRefs documentWithoutBackground (IndexNumber 3) =
     [[DocumentById 1, LayerByIndex 3]] \<and>
   resetLayersByIndexRefs documentWithoutBackground (IndexNumber 3) \<noteq>
     [[DocumentById 1, LayerByIndex (3 - 1)]] \<and>
   resetLayersByIndexRefs documentWithBackground (IndexNumber 3) =
     [[DocumentById 1, LayerByIndex 2]] \<and>
   resetLayersByIndexRefs documentWithBackground (IndexNumber 3) \<noteq>
     [[DocumentById 1, LayerByIndex 3]]"
  by (simp add: resetLayersByIndexRefs_def indexList_def hostIndex_def
      documentWithoutBackground_def documentWithBackground_def)

lemma requests_resetLayersByIndex:
  "requests (resetLayersByIndexCommand h doc layerIndexes) =
   getLayersByRefRequests (resetLayersByIndexRefs doc layerIndexes)"
  by (simp add: resetLayersByIndexCommand_def Let_def split: sum.split)

text \<open>
  Claim C4, amended. The requests of \<^verbatim>\<open>resetLayersByIndex\<close> are those of the batched
  fetch over one reference per input index, in order, each built from the host index of
  the input index: \<open>i - 1\<close> when the document has a background layer, and \<open>i\<close> itself when
  it has none (so that without a background layer the translation is the identity).
\<close>

theorem resetLayersByIndex_index_translation:
  "requests (resetLayersByIndexCommand h doc layerIndexes) =
     getLayersByRefRequests
       (map (\<lambda>i. [DocumentById (doc_id doc),
                  LayerByIndex (if hasBackgroundLayer doc then i - 1 else i)])
          (indexList layerIndexes)) \<and>
   (hasBackgroundLayer doc \<longrightarrow>
      resetLayersByIndexRefs doc layerIndexes =
        map (\<lambda>i. [DocumentById (doc_id doc), LayerByIndex (i - 1)]) (indexList layerIndexes)) \<and>
   (\<not> hasBackgroundLayer doc \<longrightarrow>
      resetLayersByIndexRefs doc layerIndexes =
        map (\<lambda>i. [DocumentById (doc_id doc), LayerByIndex i]) (indexList layerIndexes))"
  by (simp add: requests_resetLayersByIndex resetLayersByIndexRefs_def hostIndex_def)

theorem resetLayersByIndex_index_translation_witness:
  "requests (resetLayersByIndexCommand exampleHost documentWithBackground (IndexIterable [1, 3])) =
     getLayersByRefRequests [[DocumentById 1, LayerByIndex 0], [DocumentById 1, LayerByIndex 2]] \<and>
   resetLayersByIndexRefs documentWithBackground (IndexIterable [1, 3]) =
     [[DocumentById 1, LayerByIndex 0], [DocumentById 1, LayerByIndex 2]] \<and>
   resetLayersByIndexRefs documentWithoutBackground (IndexNumber 3) =
     [[DocumentById 1, LayerByIndex 3]]"
  using resetLayersByIndex_index_translation [of exampleHost documentWithBackground "IndexIterable [1, 3]"]
    resetLayersByIndex_index_translation [of exampleHost documentWithoutBackground "IndexNumber 3"]
  by (simp add: documentWithBackground_def documentWithoutBackground_def indexList_def)

text \<open>The sibling enumeration agrees: the host indices start at 0 when the document has a
  background layer and at 1 when it has none.\<close>

lemma getLayerIDsForDocument_indices:
  "getLayerIDsForDocumentRefs d =
   map (\<lambda>i. [DocumentById (documentID_d d), LayerByIndex i])
     (rev [(if hasBackgroundLayer_d d then 0 else 1)..numberOfLayers d])"
  by (simp add: getLayerIDsForDocumentRefs_def)

subsection \<open>The depth guard of \<^verbatim>\<open>groupSelected\<close>\<close>

lemma groupSelected_guard_iff:
  "requests (groupSelectedLayersCommand h maxDescendantDepth doc) = [] \<longleftrightarrow>
   selectedLayers (layers doc) = [] \<or>
   (\<exists>l \<in> set (selectedLayers (layers doc)). maxDescendantDepth (layers doc) l > PS_MAX_NEST_DEPTH)"
  by (auto simp: groupSelectedLayersCommand_def resolved_def Let_def list_ex_iff
      split: sum.splits)

text \<open>
  Claim C3. When the selection is empty, or some selected layer's maximal descendant
  depth exceeds \<open>PS_MAX_NEST_DEPTH = 9\<close>, \<^verbatim>\<open>groupSelected\<close> issues no host request,
  dispatches no event and resolves.
\<close>

theorem groupSelected_depth_guard:
  assumes "selectedLayers (layers doc) = [] \<or>
     (\<exists>l \<in> set (selectedLayers (layers doc)). maxDescendantDepth (layers doc) l > PS_MAX_NEST_DEPTH)"
  shows "requests (groupSelectedLayersCommand h maxDescendantDepth doc) = [] \<and>
         dispatched (groupSelectedLayersCommand h maxDescendantDepth doc) = [] \<and>
         outcome (groupSelectedLayersCommand h maxDescendantDepth doc) = Inr JUndefined"
proof -
  from assms have "groupSelectedLayersCommand h maxDescendantDepth doc = resolved"
    by (auto simp: groupSelectedLayersCommand_def Let_def list_ex_iff)
  then show ?thesis by (simp add: resolved_def)
qed

theorem groupSelected_depth_guard_witness:
  "requests (groupSelectedLayersCommand exampleHost (\<lambda>ls l. if layer_id l = 2 then 10 else 3)
       artboardDocument) = [] \<and>
   dispatched (groupSelectedLayersCommand exampleHost (\<lambda>ls l. if layer_id l = 2 then 10 else 3)
       artboardDocument) = [] \<and>
   outcome (groupSelectedLayersCommand exampleHost (\<lambda>ls l. if layer_id l = 2 then 10 else 3)
       artboardDocument) = Inr JUndefined \<and>
   requests (groupSelectedLayersCommand exampleHost (\<lambda>ls l. 3) placeholderDocument) = []"
proof -
  have a: "selectedLayers (layers artboardDocument) = [] \<or>
     (\<exists>l \<in> set (selectedLayers (layers artboardDocument)).
        (\<lambda>ls l. if layer_id l = 2 then 10 else (3::nat)) (layers artboardDocument) l
          > PS_MAX_NEST_DEPTH)"
    by (simp add: selectedLayers_def artboardDocument_def PS_MAX_NEST_DEPTH_def)
  have b: "selectedLayers (layers placeholderDocument) = [] \<or>
     (\<exists>l \<in> set (selectedLayers (layers placeholderDocument)).
        (\<lambda>ls l. (3::nat)) (layers placeholderDocument) l > PS_MAX_NEST_DEPTH)"
    by (simp add: selectedLayers_def placeholderDocument_def)
  from groupSelected_depth_guard [OF a, of exampleHost]
    groupSelected_depth_guard [OF b, of exampleHost]
  show ?thesis by simp
qed

text \<open>At depth 9 the guard lets the command through: the host is asked to group, and the
  new group is dispatched.\<close>

lemma groupSelected_within_limit:
  "requests (groupSelectedLayersCommand exampleHost (\<lambda>ls l. 9) artboardDocument) =
     [PlayObject GroupSelected] \<and>
   dispatched (groupSelectedLayersCommand exampleHost (\<lambda>ls l. 9) artboardDocument) =
     [GROUP_SELECTED 1 (JNum 7) (JNum 8) (JStr ''Group 1'')]"
  by (simp add: groupSelectedLayersCommand_def selectedLayers_def artboardDocument_def
      PS_MAX_NEST_DEPTH_def exampleHost_def Let_def)

subsection \<open>The guards of \<^verbatim>\<open>selectAll\<close> and \<^verbatim>\<open>deselectAll\<close>\<close>

text \<open>
  Claim C6. With no document (none given and no current document, or null), with an
  unsupported document, or with a flat document (for \<^verbatim>\<open>deselectAll\<close> a single
  background layer, for \<^verbatim>\<open>selectAll\<close> no layers), both commands resolve without a
  host request and without a dispatch.
\<close>

theorem selectAll_deselectAll_skip:
  "((case documentOrCurrent currentDocument arg of
       None \<Rightarrow> True
     | Some doc \<Rightarrow> unsupported doc \<or> onlyBackground doc) \<longrightarrow>
    requests (deselectAllLayersCommand h currentDocument arg) = [] \<and>
    dispatched (deselectAllLayersCommand h currentDocument arg) = [] \<and>
    outcome (deselectAllLayersCommand h currentDocument arg) = Inr JUndefined) \<and>
   ((case documentOrCurrent currentDocument arg of
       None \<Rightarrow> True
     | Some doc \<Rightarrow> unsupported doc \<or> all_layers (layers doc) = []) \<longrightarrow>
    requests (selectAllLayersCommand h currentDocument arg) = [] \<and>
    dispatched (selectAllLayersCommand h currentDocument arg) = [] \<and>
    outcome (selectAllLayersCommand h currentDocument arg) = Inr JUndefined)"
  by (auto simp: deselectAllLayersCommand_def selectAllLayersCommand_def resolved_def
      split: option.splits)

theorem selectAll_deselectAll_skip_witness:
  "requests (deselectAllLayersCommand exampleHost None NoArgument) = [] \<and>
   dispatched (deselectAllLayersCommand exampleHost None NoArgument) = [] \<and>
   outcome (deselectAllLayersCommand exampleHost None NoArgument) = Inr JUndefined \<and>
   requests (deselectAllLayersCommand exampleHost None (Document documentWithBackground)) = [] \<and>
   dispatched (deselectAllLayersCommand exampleHost None (Document documentWithBackground)) = [] \<and>
   outcome (deselectAllLayersCommand exampleHost None (Document documentWithBackground)) = Inr JUndefined \<and>
   requests (selectAllLayersCommand exampleHost (Some documentWithoutBackground) NoArgument) = [] \<and>
   dispatched (selectAllLayersCommand exampleHost (Some documentWithoutBackground) NoArgument) = [] \<and>
   outcome (selectAllLayersCommand exampleHost (Some documentWithoutBackground) NoArgument) = Inr JUndefined"
  using selectAll_deselectAll_skip [of None NoArgument exampleHost]
    selectAll_deselectAll_skip [of None "Document documentWithBackground" exampleHost]
    selectAll_deselectAll_skip [of "Some documentWithoutBackground" NoArgument exampleHost]
  by (simp add: documentOrCurrent_def onlyBackground_def first_def
      documentWithBackground_def documentWithoutBackground_def)

text \<open>Past the guards both commands do reach the host and dispatch the selection.\<close>

lemma selectAll_deselectAll_past_guard:
  "requests (deselectAllLayersCommand exampleHost (Some placeholderDocument) NoArgument) =
     [PlayObject DeselectAll] \<and>
   dispatched (deselectAllLayersCommand exampleHost (Some placeholderDocument) NoArgument) =
     [SELECT_LAYERS_BY_ID 1 []] \<and>
   requests (selectAllLayersCommand exampleHost (Some placeholderDocument) NoArgument) =
     [PlayObject (Select [DocumentById 1, LayerById 5] False None)] \<and>
   dispatched (selectAllLayersCommand exampleHost (Some placeholderDocument) NoArgument) =
     [SELECT_LAYERS_BY_ID 1 [5]]"
  by (simp add: deselectAllLayersCommand_def selectAllLayersCommand_def selectLayerCommand_def
      documentOrCurrent_def onlyBackground_def first_def placeholderDocument_def exampleHost_def)

section \<open>The type tool\<close>

text \<open>
  A handler is a function object; what matters of it is its identity. Every
  \<^verbatim>\<open>bind\<close> and every function expression evaluated by \<^verbatim>\<open>select\<close> creates a new one,
  numbered here in the order of creation.
\<close>

type_synonym handler = nat

text \<open>
  Modelled from the spec: \<^verbatim>\<open>descriptor.addListener(eventName, handler)\<close> and
  \<^verbatim>\<open>descriptor.removeListener(eventName, handler)\<close> of the host adapter (not among
  the sources). The registry is the list of installed listeners in the order of
  installation; removing takes out one instance of the listener, the one installed last,
  and a value that is no function (a null or undefined variable) is no installed
  listener.
\<close>

definition addListener :: "string \<Rightarrow> handler \<Rightarrow> (string \<times> handler) list \<Rightarrow> (string \<times> handler) list" where
  "addListener eventName f ls = ls @ [(eventName, f)]"

definition removeListener ::
  "string \<Rightarrow> handler option \<Rightarrow> (string \<times> handler) list \<Rightarrow> (string \<times> handler) list" where
  "removeListener eventName f ls =
     (case f of
        None \<Rightarrow> ls
      | Some g \<Rightarrow> rev (remove1 (eventName, g) (rev ls)))"

text \<open>
  The module state of \<^verbatim>\<open>actions/tool/type.js\<close>: the four handler variables (\<open>None\<close>
  while unset or null), \<^verbatim>\<open>_layersReplaced\<close>, \<^verbatim>\<open>_layerDeleted\<close> and
  \<^verbatim>\<open>firstLaunch\<close>; with it, the adapter's listener registry and the number of the next
  function object.
\<close>

record typeTool =
  typeChangedHandler :: "handler option"
  layerCreatedHandler :: "handler option"
  layerDeletedHandler :: "handler option"
  toolModalStateChangedHandler :: "handler option"
  layersReplaced :: jsval
  layerDeleted :: jsval
  firstLaunch :: bool
  listeners :: "(string \<times> handler) list"
  nextFunction :: handler

text \<open>The module state when the module is loaded, over a registry of other listeners.\<close>

definition loaded :: "(string \<times> handler) list \<Rightarrow> handler \<Rightarrow> typeTool" where
  "loaded others n =
     \<lparr>typeChangedHandler = None, layerCreatedHandler = None, layerDeletedHandler = None,
      toolModalStateChangedHandler = None, layersReplaced = JBool False, layerDeleted = JNull,
      firstLaunch = True, listeners = others, nextFunction = n\<rparr>"

text \<open>
  \<^verbatim>\<open>select\<close>, the part that runs at once: each handler that is set is removed from
  the registry, then the four handlers are created, stored and installed.
\<close>

definition selectHandlers :: "typeTool \<Rightarrow> typeTool" where
  "selectHandlers s =
     (let ls1 = (case typeChangedHandler s of
                   None \<Rightarrow> listeners s
                 | Some f \<Rightarrow> removeListener ''updateTextProperties'' (Some f) (listeners s));
          ls2 = (case layerCreatedHandler s of
                   None \<Rightarrow> ls1
                 | Some f \<Rightarrow> removeListener ''createTextLayer'' (Some f) ls1);
          ls3 = (case layerDeletedHandler s of
                   None \<Rightarrow> ls2
                 | Some f \<Rightarrow> removeListener ''deleteTextLayer'' (Some f) ls2);
          ls4 = (case toolModalStateChangedHandler s of
                   None \<Rightarrow> ls3
                 | Some f \<Rightarrow> removeListener ''toolModalStateChanged'' (Some f) ls3);
          f1 = nextFunction s;
          ls5 = addListener ''updateTextProperties'' f1 ls4;
          f2 = f1 + 1;
          ls6 = addListener ''createTextLayer'' f2 ls5;
          f3 = f2 + 1;
          ls7 = addListener ''deleteTextLayer'' f3 ls6;
          f4 = f3 + 1;
          ls8 = addListener ''toolModalStateChanged'' f4 ls7
      in s\<lparr>typeChangedHandler := Some f1, layerCreatedHandler := Some f2,
            layerDeletedHandler := Some f3, toolModalStateChangedHandler := Some f4,
            listeners := ls8, nextFunction := f4 + 1\<rparr>)"

text \<open>
  \<^verbatim>\<open>select\<close>: after the handlers, target paths are suppressed, and on the first
  launch the default type style is set.
\<close>

definition select :: "host \<Rightarrow> typeTool \<Rightarrow> typeTool \<times> command" where
  "select h s =
     (let s1 = selectHandlers s
      in case setSuppressTargetPaths h True of
           Inl e \<Rightarrow>
             (s1, \<lparr>requests = [SetSuppressTargetPaths True], dispatched = [], outcome = Inl e\<rparr>)
         | Inr v \<Rightarrow>
             if firstLaunch s1
             then (s1\<lparr>firstLaunch := False\<rparr>,
                   \<lparr>requests = [SetSuppressTargetPaths True,
                                 PlayObject (ResetTypeTool ''left'' ''Myriad Pro'' 16 [0, 0, 0])],
                    dispatched = [],
                    outcome = playObject h (ResetTypeTool ''left'' ''Myriad Pro'' 16 [0, 0, 0])\<rparr>)
             else (s1, \<lparr>requests = [SetSuppressTargetPaths True], dispatched = [],
                        outcome = Inr JUndefined\<rparr>))"

text \<open>\<^verbatim>\<open>deselect\<close>: the four stored handlers are removed and the variables set to null.\<close>

definition deselect :: "host \<Rightarrow> typeTool \<Rightarrow> typeTool \<times> command" where
  "deselect h s =
     (let ls1 = removeListener ''updateTextProperties'' (typeChangedHandler s) (listeners s);
          ls2 = removeListener ''createTextLayer'' (layerCreatedHandler s) ls1;
          ls3 = removeListener ''deleteTextLayer'' (layerDeletedHandler s) ls2;
          ls4 = removeListener ''toolModalStateChanged'' (toolModalStateChangedHandler s) ls3
      in (s\<lparr>typeChangedHandler := None, layerCreatedHandler := None,
             layerDeletedHandler := None, toolModalStateChangedHandler := None,
             listeners := ls4\<rparr>,
          \<lparr>requests = [SetSuppressTargetPaths False], dispatched = [],
           outcome = setSuppressTargetPaths h False\<rparr>))"

text \<open>The listeners \<^verbatim>\<open>select\<close> installs, for the first of its four functions.\<close>

definition modalListeners :: "handler \<Rightarrow> (string \<times> handler) list" where
  "modalListeners f =
     [(''updateTextProperties'', f), (''createTextLayer'', f + 1),
      (''deleteTextLayer'', f + 2), (''toolModalStateChanged'', f + 3)]"

text \<open>
  The state of the handlers over a registry of other listeners: none stored and none
  installed, or the four functions of the last \<^verbatim>\<open>select\<close> stored and installed once
  each, after the other listeners.
\<close>

definition unselected :: "(string \<times> handler) list \<Rightarrow> typeTool \<Rightarrow> bool" where
  "unselected others s =
     (typeChangedHandler s = None \<and> layerCreatedHandler s = None \<and>
      layerDeletedHandler s = None \<and> toolModalStateChangedHandler s = None \<and>
      listeners s = others)"

definition selectedWith :: "(string \<times> handler) list \<Rightarrow> handler \<Rightarrow> typeTool \<Rightarrow> bool" where
  "selectedWith others f s =
     (typeChangedHandler s = Some f \<and> layerCreatedHandler s = Some (f + 1) \<and>
      layerDeletedHandler s = Some (f + 2) \<and> toolModalStateChangedHandler s = Some (f + 3) \<and>
      listeners s = others @ modalListeners f)"

subsection \<open>Installing and removing the listeners\<close>

lemma selectHandlers_unselected:
  assumes "unselected others s"
  shows "selectedWith others (nextFunction s) (selectHandlers s)"
  using assms
  by (auto simp: unselected_def selectedWith_def selectHandlers_def modalListeners_def
      addListener_def Let_def)

lemma selectHandlers_selectedWith:
  assumes "selectedWith others f s"
  shows "selectedWith others (nextFunction s) (selectHandlers s)"
proof -
  from assms have h: "typeChangedHandler s = Some f" "layerCreatedHandler s = Some (f + 1)"
    "layerDeletedHandler s = Some (f + 2)" "toolModalStateChangedHandler s = Some (f + 3)"
    and ls: "listeners s = others @ modalListeners f"
    by (simp_all add: selectedWith_def)
  have r1: "removeListener ''updateTextProperties'' (Some f) (others @ modalListeners f) =
      others @ [(''createTextLayer'', f + 1), (''deleteTextLayer'', f + 2),
                (''toolModalStateChanged'', f + 3)]"
    by (simp add: modalListeners_def removeListener_def)
  have r2: "removeListener ''createTextLayer'' (Some (f + 1))
      (others @ [(''createTextLayer'', f + 1), (''deleteTextLayer'', f + 2),
                (''toolModalStateChanged'', f + 3)]) =
      others @ [(''deleteTextLayer'', f + 2), (''toolModalStateChanged'', f + 3)]"
    by (simp add: removeListener_def)
  have r3: "removeListener ''deleteTextLayer'' (Some (f + 2))
      (others @ [(''deleteTextLayer'', f + 2), (''toolModalStateChanged'', f + 3)]) =
      others @ [(''toolModalStateChanged'', f + 3)]"
    by (simp add: removeListener_def)
  have r4: "removeListener ''toolModalStateChanged'' (Some (f + 3))
      (others @ [(''toolModalStateChanged'', f + 3)]) = others"
    by (simp add: removeListener_def)
  have "listeners (selectHandlers s) = others @ modalListeners (nextFunction s)"
    using h ls r1 r2 r3 r4
    by (simp add: selectHandlers_def addListener_def modalListeners_def Let_def)
  then show ?thesis
    by (simp add: selectedWith_def selectHandlers_def Let_def)
qed

lemma selectedWith_select:
  "selectedWith others f (selectHandlers s) \<Longrightarrow> selectedWith others f (fst (select h s))"
  by (simp add: select_def selectedWith_def Let_def split: sum.split)

lemma select_from_either:
  assumes "unselected others s \<or> (\<exists>f. selectedWith others f s)"
  shows "selectedWith others (nextFunction s) (fst (select h s))"
  using assms selectHandlers_unselected selectHandlers_selectedWith selectedWith_select
  by blast

lemma deselect_selectedWith:
  assumes "selectedWith others f s"
  shows "unselected others (fst (deselect h s))"
proof -
  from assms have h: "typeChangedHandler s = Some f" "layerCreatedHandler s = Some (f + 1)"
    "layerDeletedHandler s = Some (f + 2)" "toolModalStateChangedHandler s = Some (f + 3)"
    and ls: "listeners s = others @ modalListeners f"
    by (simp_all add: selectedWith_def)
  have "removeListener ''toolModalStateChanged'' (Some (f + 3))
          (removeListener ''deleteTextLayer'' (Some (f + 2))
             (removeListener ''createTextLayer'' (Some (f + 1))
                (removeListener ''updateTextProperties'' (Some f)
                   (others @ modalListeners f)))) = others"
    by (simp add: modalListeners_def removeListener_def)
  with h ls show ?thesis by (simp add: deselect_def unselected_def Let_def)
qed

lemma selects_selectedWith:
  assumes "unselected others s \<or> (\<exists>f. selectedWith others f s)"
  shows "\<exists>f. selectedWith others f (((\<lambda>t. fst (select h t)) ^^ Suc n) s)"
proof (induction n)
  case 0
  from select_from_either [OF assms] show ?case by auto
next
  case (Suc n)
  then obtain f where "selectedWith others f (((\<lambda>t. fst (select h t)) ^^ Suc n) s)" by blast
  then have "selectedWith others (nextFunction (((\<lambda>t. fst (select h t)) ^^ Suc n) s))
      (fst (select h (((\<lambda>t. fst (select h t)) ^^ Suc n) s)))"
    using select_from_either by blast
  then show ?case by auto
qed

text \<open>
  Claim C8. From a state with no handler stored, over any registry of other listeners,
  after any positive number of \<^verbatim>\<open>select\<close> calls with no \<^verbatim>\<open>deselect\<close> between them
  the registry holds the other listeners and exactly one listener for each of
  \<^verbatim>\<open>updateTextProperties\<close>, \<^verbatim>\<open>createTextLayer\<close>, \<^verbatim>\<open>deleteTextLayer\<close> and
  \<^verbatim>\<open>toolModalStateChanged\<close>, the four stored handlers; a \<^verbatim>\<open>deselect\<close> then
  leaves the other listeners alone in the registry and no handler stored.
\<close>

theorem select_installs_each_listener_once:
  assumes "unselected others s" and "0 < n"
  shows "\<exists>f. selectedWith others f (((\<lambda>t. fst (select h t)) ^^ n) s) \<and>
             unselected others (fst (deselect h (((\<lambda>t. fst (select h t)) ^^ n) s)))"
proof -
  from assms(2) obtain m where n: "n = Suc m" by (cases n) auto
  from selects_selectedWith [where others=others and s=s and h=h and n=m] assms(1) n
  obtain f where "selectedWith others f (((\<lambda>t. fst (select h t)) ^^ n) s)" by auto
  with deselect_selectedWith show ?thesis by blast
qed

theorem select_installs_each_listener_once_witness:
  "listeners (fst (select exampleHost (fst (select exampleHost (loaded [(''make'', 0)] 1))))) =
     [(''make'', 0), (''updateTextProperties'', 5), (''createTextLayer'', 6),
      (''deleteTextLayer'', 7), (''toolModalStateChanged'', 8)] \<and>
   listeners (fst (deselect exampleHost
       (fst (select exampleHost (fst (select exampleHost (loaded [(''make'', 0)] 1))))))) =
     [(''make'', 0)] \<and>
   typeChangedHandler (fst (deselect exampleHost
       (fst (select exampleHost (fst (select exampleHost (loaded [(''make'', 0)] 1))))))) = None"
proof -
  let ?s = "loaded [(''make'', 0)] 1"
  have u: "unselected [(''make'', 0)] ?s" by (simp add: unselected_def loaded_def)
  have t: "((\<lambda>t. fst (select exampleHost t)) ^^ Suc (Suc 0)) ?s =
      fst (select exampleHost (fst (select exampleHost ?s)))" by simp
  have n: "nextFunction (fst (select exampleHost ?s)) = 5"
    by (simp add: select_def selectHandlers_def loaded_def Let_def exampleHost_def)
  have p: "0 < Suc (Suc 0)" by simp
  from select_installs_each_listener_once [OF u p, where h=exampleHost]
  obtain f where s: "selectedWith [(''make'', 0)] f (fst (select exampleHost (fst (select exampleHost ?s))))"
    and d: "unselected [(''make'', 0)]
      (fst (deselect exampleHost (fst (select exampleHost (fst (select exampleHost ?s))))))"
    unfolding t by auto
  have "typeChangedHandler (fst (select exampleHost (fst (select exampleHost ?s)))) = Some 5"
    using n by (simp add: select_def selectHandlers_def Let_def exampleHost_def split: if_splits)
  with s have "f = 5" by (simp add: selectedWith_def)
  with s d show ?thesis by (simp add: selectedWith_def unselected_def modalListeners_def)
qed

subsection \<open>The handlers of the modal text events\<close>

text \<open>
  What a handler calls: actions of other modules, by transfer or through the flux
  actions. \<^verbatim>\<open>documents.updateDocument\<close>, \<^verbatim>\<open>layers.removeLayers\<close> and
  \<^verbatim>\<open>type.updatePropertiesThrottled\<close> are not among the sources; a call is recorded
  with its arguments.
\<close>

datatype action =
    UpdateDocument
  | RemoveLayers document layer bool
  | ResetLayers document "layer list"
  | AddLayers document nat jsval
  | UpdatePropertiesThrottled document nat jsval

text \<open>What handling an event does: the next module state, the actions called, in order,
  and the exception thrown, if any.\<close>

record reaction =
  next_state :: typeTool
  called :: "action list"
  thrown :: "error option"

record createTextLayerEvent =
  layerID_c :: nat
  currentTextStyle :: jsval

record toolModalStateChangedEvent =
  kind :: string
  tool_ID :: string
  state_value :: string
  reason :: string

text \<open>
  \<^verbatim>\<open>handleDeletedLayer(event, layersReplaced)\<close>: the action control is transferred
  to, or the error thrown when there is no active document.
\<close>

definition handleDeletedLayer :: "document option \<Rightarrow> nat \<Rightarrow> jsval \<Rightarrow> error + action" where
  "handleDeletedLayer currentDocument layerID replaced =
     (case currentDocument of
        None \<Rightarrow> Inl (Error ''Unexpected deleteTextLayer event: no active document'')
      | Some doc \<Rightarrow>
          if truthy replaced then Inr UpdateDocument
          else
            (case byID (layers doc) layerID of
               None \<Rightarrow> Inr UpdateDocument
             | Some l \<Rightarrow> Inr (RemoveLayers doc l True)))"

text \<open>\<^verbatim>\<open>handleTypeModalStateCanceled()\<close>\<close>

definition handleTypeModalStateCanceled :: "document option \<Rightarrow> error + action" where
  "handleTypeModalStateCanceled currentDocument =
     (case currentDocument of
        None \<Rightarrow> Inl (Error ''Unexpected toolModalStateChanged event: no active document'')
      | Some doc \<Rightarrow> Inr (ResetLayers doc (selectedLayers (layers doc))))"

definition react :: "typeTool \<Rightarrow> error + action \<Rightarrow> reaction" where
  "react s r =
     (case r of
        Inl e \<Rightarrow> \<lparr>next_state = s, called = [], thrown = Some e\<rparr>
      | Inr a \<Rightarrow> \<lparr>next_state = s, called = [a], thrown = None\<rparr>)"

text \<open>
  \<^verbatim>\<open>_layerCreatedHandler\<close>. For a layer the document does not hold yet,
  \<^verbatim>\<open>_layersReplaced\<close> is set to false, \<^verbatim>\<open>addLayers(document, layerID, true)\<close> is
  called, and when its promise resolves \<^verbatim>\<open>_layersReplaced\<close> is set to the value it
  resolved with (the value the command's promise resolves with); then the text style of
  the event, if any, is applied. When the promise rejects, the flag stays false.
\<close>

definition layerCreated :: "host \<Rightarrow> document option \<Rightarrow> createTextLayerEvent \<Rightarrow> typeTool \<Rightarrow> reaction" where
  "layerCreated h currentDocument event s =
     (case currentDocument of
        None \<Rightarrow> \<lparr>next_state = s, called = [], thrown = None\<rparr>
      | Some doc \<Rightarrow>
          (case byID (layers doc) (layerID_c event) of
             Some currentLayer \<Rightarrow>
               \<lparr>next_state = s, called = [ResetLayers doc [currentLayer]], thrown = None\<rparr>
           | None \<Rightarrow>
               (let s1 = s\<lparr>layersReplaced := JBool False\<rparr>
                in case outcome (addLayersCommand h doc (SpecNumber (layerID_c event))
                                   (JBool True) JUndefined) of
                     Inl e \<Rightarrow>
                       \<lparr>next_state = s1,
                        called = [AddLayers doc (layerID_c event) (JBool True)],
                        thrown = None\<rparr>
                   | Inr resolvedWith \<Rightarrow>
                       \<lparr>next_state = s1\<lparr>layersReplaced := resolvedWith\<rparr>,
                        called =
                          AddLayers doc (layerID_c event) (JBool True) #
                          (if truthy (currentTextStyle event)
                           then [UpdatePropertiesThrottled doc (layerID_c event)
                                   (currentTextStyle event)]
                           else []),
                        thrown = None\<rparr>)))"

text \<open>\<^verbatim>\<open>_layerDeletedHandler\<close>: the deleted layer ID is recorded, then the deletion is
  handled with the current value of \<^verbatim>\<open>_layersReplaced\<close>.\<close>

definition layerDeletedEvent :: "document option \<Rightarrow> nat \<Rightarrow> typeTool \<Rightarrow> reaction" where
  "layerDeletedEvent currentDocument layerID s =
     react (s\<lparr>layerDeleted := JNum (int layerID)\<rparr>)
       (handleDeletedLayer currentDocument layerID (layersReplaced s))"

text \<open>The events \<^verbatim>\<open>_toolModalStateChangedHandler\<close> acts on: the type tool left its
  modal state by a cancel.\<close>

definition typeToolCanceled :: "toolModalStateChangedEvent \<Rightarrow> bool" where
  "typeToolCanceled event =
     (kind event = ''tool'' \<and> tool_ID event = ''txBx'' \<and>
      state_value event = ''exit'' \<and> reason event = ''cancel'')"

definition toolModalStateChanged ::
  "document option \<Rightarrow> toolModalStateChangedEvent \<Rightarrow> typeTool \<Rightarrow> reaction" where
  "toolModalStateChanged currentDocument event s =
     (if typeToolCanceled event
      then
        if truthy (layerDeleted s)
        then \<lparr>next_state = s\<lparr>layerDeleted := JNull\<rparr>, called = [], thrown = None\<rparr>
        else react s (handleTypeModalStateCanceled currentDocument)
      else \<lparr>next_state = s, called = [], thrown = None\<rparr>)"

text \<open>
  The events of a session, each with the application store's current document at the
  time, and the module state after handling a list of them.
\<close>

datatype typeEvent =
    SelectTool
  | DeselectTool
  | CreateTextLayer "document option" createTextLayerEvent
  | DeleteTextLayer "document option" nat
  | ToolModalStateChanged "document option" toolModalStateChangedEvent

fun handle :: "host \<Rightarrow> typeTool \<Rightarrow> typeEvent \<Rightarrow> typeTool" where
  "handle h s SelectTool = fst (select h s)"
| "handle h s DeselectTool = fst (deselect h s)"
| "handle h s (CreateTextLayer d e) = next_state (layerCreated h d e s)"
| "handle h s (DeleteTextLayer d i) = next_state (layerDeletedEvent d i s)"
| "handle h s (ToolModalStateChanged d e) = next_state (toolModalStateChanged d e s)"

text \<open>Events that neither record a deleted layer nor are a type tool cancel.\<close>

fun quiet :: "typeEvent \<Rightarrow> bool" where
  "quiet (DeleteTextLayer d i) = False"
| "quiet (ToolModalStateChanged d e) = (\<not> typeToolCanceled e)"
| "quiet e = True"

lemma layerDeleted_quiet: "quiet e \<Longrightarrow> layerDeleted (handle h s e) = layerDeleted s"
  by (cases e)
    (auto simp: select_def selectHandlers_def deselect_def layerCreated_def
      toolModalStateChanged_def Let_def split: sum.splits option.splits)

lemma layerDeleted_quiet_events:
  "list_all quiet es \<Longrightarrow> layerDeleted (foldl (handle h) s es) = layerDeleted s"
  by (induction es arbitrary: s) (simp_all add: layerDeleted_quiet)

text \<open>
  Claim C7. After a \<^verbatim>\<open>deleteTextLayer\<close> event has recorded a deleted layer ID (an ID
  other than 0: the record is tested for truthiness, and the host's layer IDs are
  positive), and after any events that are neither a \<^verbatim>\<open>deleteTextLayer\<close> nor a type
  tool cancel, the next type tool cancel calls no action, throws nothing and clears the
  record. A type tool cancel that finds no record, with an active document, transfers
  to \<^verbatim>\<open>resetLayers\<close> with the document's selected layers.
\<close>

theorem cancel_after_deleted_layer:
  assumes "layerID \<noteq> 0" and "list_all quiet es" and "typeToolCanceled event"
  shows "(let deleted = next_state (layerDeletedEvent d1 layerID s);
              before = foldl (handle h) deleted es;
              r = toolModalStateChanged d2 event before
          in layerDeleted deleted = JNum (int layerID) \<and>
             called r = [] \<and> thrown r = None \<and> layerDeleted (next_state r) = JNull) \<and>
         (\<not> truthy (layerDeleted s) \<longrightarrow>
            toolModalStateChanged (Some doc) event s =
              \<lparr>next_state = s, called = [ResetLayers doc (selectedLayers (layers doc))],
               thrown = None\<rparr>)"
proof -
  let ?deleted = "next_state (layerDeletedEvent d1 layerID s)"
  let ?before = "foldl (handle h) ?deleted es"
  have rec: "layerDeleted ?deleted = JNum (int layerID)"
    by (simp add: layerDeletedEvent_def react_def split: sum.split)
  with assms(2) have "layerDeleted ?before = JNum (int layerID)"
    by (simp add: layerDeleted_quiet_events)
  with assms(1) have "truthy (layerDeleted ?before)" by simp
  with assms(3) have "toolModalStateChanged d2 event ?before =
      \<lparr>next_state = ?before\<lparr>layerDeleted := JNull\<rparr>, called = [], thrown = None\<rparr>"
    by (simp add: toolModalStateChanged_def)
  moreover have "\<not> truthy (layerDeleted s) \<longrightarrow>
      toolModalStateChanged (Some doc) event s =
        \<lparr>next_state = s, called = [ResetLayers doc (selectedLayers (layers doc))],
         thrown = None\<rparr>"
    using assms(3)
    by (simp add: toolModalStateChanged_def handleTypeModalStateCanceled_def react_def)
  ultimately show ?thesis using rec by (simp add: Let_def)
qed

definition cancelEvent :: toolModalStateChangedEvent where
  "cancelEvent = \<lparr>kind = ''tool'', tool_ID = ''txBx'', state_value = ''exit'', reason = ''cancel''\<rparr>"

definition commitEvent :: toolModalStateChangedEvent where
  "commitEvent = \<lparr>kind = ''tool'', tool_ID = ''txBx'', state_value = ''exit'', reason = ''commit''\<rparr>"

theorem cancel_after_deleted_layer_witness:
  "(let deleted = next_state (layerDeletedEvent (Some placeholderDocument) 5 (loaded [] 0));
        before = foldl (handle exampleHost) deleted
                   [ToolModalStateChanged (Some placeholderDocument) commitEvent];
        r = toolModalStateChanged (Some placeholderDocument) cancelEvent before
    in layerDeleted deleted = JNum 5 \<and>
       called r = [] \<and> thrown r = None \<and> layerDeleted (next_state r) = JNull) \<and>
   toolModalStateChanged (Some artboardDocument) cancelEvent (loaded [] 0) =
     \<lparr>next_state = loaded [] 0,
      called = [ResetLayers artboardDocument
                  [\<lparr>layer_id = 2, isBackground = False, bounds = Some \<lparr>area = 0\<rparr>,
                    selected = True\<rparr>]],
      thrown = None\<rparr>"
proof -
  have a: "(5::nat) \<noteq> 0" by simp
  have b: "list_all quiet [ToolModalStateChanged (Some placeholderDocument) commitEvent]"
    by (simp add: typeToolCanceled_def commitEvent_def)
  have c: "typeToolCanceled cancelEvent" by (simp add: typeToolCanceled_def cancelEvent_def)
  have d: "\<not> truthy (layerDeleted (loaded [] 0))" by (simp add: loaded_def)
  have e: "selectedLayers (layers artboardDocument) =
      [\<lparr>layer_id = 2, isBackground = False, bounds = Some \<lparr>area = 0\<rparr>, selected = True\<rparr>]"
    by (simp add: selectedLayers_def artboardDocument_def)
  from cancel_after_deleted_layer [OF a b c, where ?d1.0 = "Some placeholderDocument"
      and s = "loaded [] 0" and h = exampleHost and ?d2.0 = "Some placeholderDocument"
      and doc = artboardDocument] d e
  show ?thesis by simp
qed

text \<open>
  The record is a nullable number tested for truthiness, so a recorded ID 0 would read as
  no record: the cancel would then reset the selected layers. The host numbers layers
  from 1.
\<close>

lemma cancel_after_deleted_layer_zero:
  "typeToolCanceled event \<Longrightarrow>
   called (toolModalStateChanged (Some doc) event (next_state (layerDeletedEvent d 0 s))) =
     [ResetLayers doc (selectedLayers (layers doc))]"
  by (simp add: toolModalStateChanged_def layerDeletedEvent_def react_def
      handleTypeModalStateCanceled_def split: sum.split)

subsection \<open>The deleted text layer after a replacing add\<close>

text \<open>
  Given the flag, \<^verbatim>\<open>handleDeletedLayer\<close> does what it documents: a truthy flag gives
  a full document update; a falsy flag removes the layer, or updates the document when
  the layer is unknown.
\<close>

lemma handleDeletedLayer_replaced:
  "truthy replaced \<Longrightarrow> handleDeletedLayer (Some doc) layerID replaced = Inr UpdateDocument"
  by (simp add: handleDeletedLayer_def)

lemma handleDeletedLayer_not_replaced:
  "\<not> truthy replaced \<Longrightarrow> byID (layers doc) layerID = Some l \<Longrightarrow>
   handleDeletedLayer (Some doc) layerID replaced = Inr (RemoveLayers doc l True)"
  by (simp add: handleDeletedLayer_def)

lemma handleDeletedLayer_missing:
  "\<not> truthy replaced \<Longrightarrow> byID (layers doc) layerID = None \<Longrightarrow>
   handleDeletedLayer (Some doc) layerID replaced = Inr UpdateDocument"
  by (simp add: handleDeletedLayer_def)

text \<open>\<^verbatim>\<open>addLayers\<close> resolves with undefined, whatever it dispatched.\<close>

lemma addLayers_resolves_undefined:
  "outcome (addLayersCommand h doc layerSpec sel replace) = Inr v \<Longrightarrow> v = JUndefined"
  by (auto simp: addLayersCommand_def Let_def split: sum.splits)

text \<open>Hence \<^verbatim>\<open>_layersReplaced\<close>, false when the module is loaded, is never truthy.\<close>

lemma layersReplaced_handle:
  "\<not> truthy (layersReplaced s) \<Longrightarrow> \<not> truthy (layersReplaced (handle h s e))"
proof (cases e)
  case (CreateTextLayer d ev)
  assume "\<not> truthy (layersReplaced s)"
  then show ?thesis
    using CreateTextLayer
    by (auto simp: layerCreated_def Let_def split: option.splits sum.splits
        dest: addLayers_resolves_undefined)
qed (auto simp: select_def selectHandlers_def deselect_def layerDeletedEvent_def react_def
      toolModalStateChanged_def Let_def split: sum.splits)

lemma layersReplaced_never_truthy:
  "\<not> truthy (layersReplaced (foldl (handle h) (loaded others n) es))"
proof -
  have "\<not> truthy (layersReplaced s) \<Longrightarrow> \<not> truthy (layersReplaced (foldl (handle h) s es))" for s
    by (induction es arbitrary: s) (simp_all add: layersReplaced_handle)
  then show ?thesis by (simp add: loaded_def)
qed

text \<open>The artboard document after the text layer 10 replaced the placeholder layer 2.\<close>

definition artboardDocumentWithText :: document where
  "artboardDocumentWithText =
     \<lparr>doc_id = 1, unsupported = False, hasBackgroundLayer = False,
      layers = \<lparr>all_layers =
                  [\<lparr>layer_id = 1, isBackground = False, bounds = Some \<lparr>area = 100\<rparr>,
                    selected = False\<rparr>,
                   \<lparr>layer_id = 10, isBackground = False, bounds = Some \<lparr>area = 20\<rparr>,
                    selected = True\<rparr>,
                   \<lparr>layer_id = 3, isBackground = False, bounds = None, selected = False\<rparr>],
                hasArtboard = True\<rparr>\<rparr>"

text \<open>
  Claim C2. In a session on the artboard document, the \<^verbatim>\<open>createTextLayer\<close> event for
  layer 10 runs \<^verbatim>\<open>addLayers\<close>, which replaces the placeholder (the dispatched payload
  has \<open>replace = true\<close>); its promise resolves with undefined, which is what
  \<^verbatim>\<open>_layersReplaced\<close> then holds; the \<^verbatim>\<open>deleteTextLayer\<close> event for layer 10 that
  follows transfers to \<^verbatim>\<open>removeLayers\<close> for that layer, not to \<^verbatim>\<open>updateDocument\<close>.
\<close>

theorem deleted_layer_after_replacing_add:
  "dispatchedReplace
     (addLayersCommand exampleHost artboardDocument (SpecNumber 10) (JBool True) JUndefined) =
     Some (JBool True) \<and>
   layersReplaced (next_state (layerCreated exampleHost (Some artboardDocument)
       \<lparr>layerID_c = 10, currentTextStyle = JUndefined\<rparr> (loaded [] 0))) = JUndefined \<and>
   called (layerDeletedEvent (Some artboardDocumentWithText) 10
       (next_state (layerCreated exampleHost (Some artboardDocument)
          \<lparr>layerID_c = 10, currentTextStyle = JUndefined\<rparr> (loaded [] 0)))) =
     [RemoveLayers artboardDocumentWithText
        \<lparr>layer_id = 10, isBackground = False, bounds = Some \<lparr>area = 20\<rparr>, selected = True\<rparr>
        True]"
proof -
  obtain ds where r: "getLayersByRef exampleHost
      (addLayersRefs artboardDocument (layerSpecList (SpecNumber 10))) = Inr ds"
    using exampleHost_resolves by blast
  have t: "replaceDefault artboardDocument (layerSpecList (SpecNumber 10)) = JBool True"
    by (simp add: replaceDefault_def artboardDocument_def layerSpecList_def byID_def)
  have 1: "dispatchedReplace
     (addLayersCommand exampleHost artboardDocument (SpecNumber 10) (JBool True) JUndefined) =
     Some (JBool True)"
    using dispatchedReplace_addLayers [OF r, of "JBool True" JUndefined] t by simp
  have o: "outcome (addLayersCommand exampleHost artboardDocument (SpecNumber 10)
      (JBool True) JUndefined) = Inr JUndefined"
    using r by (simp add: addLayersCommand_def Let_def)
  have n: "byID (layers artboardDocument) 10 = None"
    by (simp add: byID_def artboardDocument_def)
  have 2: "layersReplaced (next_state (layerCreated exampleHost (Some artboardDocument)
       \<lparr>layerID_c = 10, currentTextStyle = JUndefined\<rparr> (loaded [] 0))) = JUndefined"
    using o n by (simp add: layerCreated_def Let_def)
  have b: "byID (layers artboardDocumentWithText) 10 =
      Some \<lparr>layer_id = 10, isBackground = False, bounds = Some \<lparr>area = 20\<rparr>, selected = True\<rparr>"
    by (simp add: byID_def artboardDocumentWithText_def)
  have 3: "called (layerDeletedEvent (Some artboardDocumentWithText) 10
       (next_state (layerCreated exampleHost (Some artboardDocument)
          \<lparr>layerID_c = 10, currentTextStyle = JUndefined\<rparr> (loaded [] 0)))) =
     [RemoveLayers artboardDocumentWithText
        \<lparr>layer_id = 10, isBackground = False, bounds = Some \<lparr>area = 20\<rparr>, selected = True\<rparr>
        True]"
    using 2 b by (simp add: layerDeletedEvent_def handleDeletedLayer_def react_def)
  from 1 2 3 show ?thesis by blast
qed

section \<open>Menu items\<close>

text \<open>
  A raw menu description, as \<^verbatim>\<open>MenuItem.fromDescriptor\<close> reads it: \<open>None\<close> is a
  property the description does not own; \<open>separator\<close> and \<open>debug\<close> are read for
  their truthiness.
\<close>

record rawShortcut =
  keyChar :: "string option"
  keyCode :: "string option"
  modifiers :: "jsobj option"

datatype rawMenu =
  RawMenu (separator: bool) (raw_id: "string option") (raw_enabled: "bool option")
    (raw_submenu: "rawMenu list option") (raw_commandKind: "string option")
    (raw_shortcut: "rawShortcut option") (debug: bool)

record menuShortcut =
  shortcut_modifiers :: nat
  shortcut_keyChar :: "string option"
  shortcut_keyCode :: "nat option"

text \<open>The \<^verbatim>\<open>MenuItem\<close> record; \<open>None\<close> is null.\<close>

datatype menuItem =
  MenuItem (item_type: "string option") (item_id: "string option") (item_itemID: "string option")
    (item_label: "jsval option") (item_submenu: "menuItem list option")
    (item_command: "string option") (item_commandKind: "nat option")
    (item_shortcut: "menuShortcut option") (item_enabled: bool) (item_checked: bool)

text \<open>
  What \<^verbatim>\<open>fromDescriptor\<close> uses of other modules, none of them among the sources:
  \<^verbatim>\<open>nls.localize\<close>, the key code table \<^verbatim>\<open>os.eventKeyCode\<close>, the table
  \<^verbatim>\<open>UI.commandKind\<close>, \<^verbatim>\<open>keyutil.modifiersToBits\<close> and the global
  \<^verbatim>\<open>__PG_DEBUG__\<close>.
\<close>

record menuEnv =
  localize :: "string \<Rightarrow> jsval"
  eventKeyCode :: "(string \<times> nat) list"
  commandKindTable :: "(string \<times> nat) list"
  modifiersToBits :: "jsobj \<Rightarrow> nat"
  PG_DEBUG :: bool

text \<open>The shortcut table: for every key, the modifier bits taken with it.\<close>

type_synonym shortcutTable = "(string \<times> (nat \<times> bool) list) list"

text \<open>\<^verbatim>\<open>_getLabelForEntry(id)\<close>\<close>

definition getLabelForEntry :: "menuEnv \<Rightarrow> string \<Rightarrow> jsval" where
  "getLabelForEntry env i = localize env (''menu.'' @ i)"

text \<open>\<^verbatim>\<open>_getLabelForSubmenu(id)\<close>; calling \<^verbatim>\<open>hasOwnProperty\<close> on null or undefined
  is a TypeError.\<close>

definition getLabelForSubmenu :: "menuEnv \<Rightarrow> string \<Rightarrow> error + jsval" where
  "getLabelForSubmenu env i =
     (let labels = getLabelForEntry env i
      in if labels = JUndefined \<or> labels = JNull then Inl TypeError
         else if \<not> hasOwnProperty labels ''$MENU''
         then Inl (Error (''Missing label for menu: '' @ i))
         else Inr (jsGet labels ''$MENU''))"

text \<open>A string that is present and truthy: not undefined and not empty.\<close>

definition specified :: "string option \<Rightarrow> bool" where
  "specified s = (case s of None \<Rightarrow> False | Some x \<Rightarrow> x \<noteq> [])"

definition str :: "string option \<Rightarrow> string" where
  "str s = (case s of None \<Rightarrow> [] | Some x \<Rightarrow> x)"

text \<open>
  The shortcut part of \<^verbatim>\<open>fromDescriptor\<close>: the key is checked, then the shortcut is
  looked up in the table and recorded there.
\<close>

definition processShortcut ::
  "menuEnv \<Rightarrow> rawShortcut \<Rightarrow> shortcutTable \<Rightarrow> error + (menuShortcut \<times> shortcutTable)" where
  "processShortcut env sc shortcutTable =
     (let rawKeyChar = keyChar sc;
          rawKeyCode = keyCode sc;
          rawModifiers = (case modifiers sc of None \<Rightarrow> [] | Some m \<Rightarrow> m);
          rawModifierBits = modifiersToBits env rawModifiers
      in if specified rawKeyChar \<and> specified rawKeyCode
         then Inl (Error ''Menu entry specifies both key char and code'')
         else
           (case
              (if specified rawKeyChar
               then Inr (\<lparr>shortcut_modifiers = rawModifierBits, shortcut_keyChar = rawKeyChar,
                          shortcut_keyCode = None\<rparr>,
                         ''char-'' @ str rawKeyChar)
               else if specified rawKeyCode
               then (case map_of (eventKeyCode env) (str rawKeyCode) of
                       None \<Rightarrow>
                         Inl (Error (''Menu entry specifies unknown key code: '' @ str rawKeyCode))
                     | Some c \<Rightarrow>
                         Inr (\<lparr>shortcut_modifiers = rawModifierBits, shortcut_keyChar = None,
                                shortcut_keyCode = Some c\<rparr>,
                              ''code-'' @ str rawKeyCode))
               else Inl (Error ''Menu entry does not specify a key for its shortcut''))
            of
              Inl e \<Rightarrow> Inl e
            | Inr (rawShortcut, shortcutTableKey) \<Rightarrow>
                (let table1 = (if map_of shortcutTable shortcutTableKey = None
                               then AList.update shortcutTableKey [] shortcutTable
                               else shortcutTable);
                     taken = (case map_of table1 shortcutTableKey of None \<Rightarrow> [] | Some t \<Rightarrow> t)
                 in if map_of taken rawModifierBits = Some True
                    then Inl (Error (''Menu entry shortcut duplicate: '' @ shortcutTableKey))
                    else Inr (rawShortcut,
                              AList.update shortcutTableKey
                                (AList.update rawModifierBits True taken) table1))))"

text \<open>The identifier of an entry below a prefix.\<close>

definition fullId :: "string option \<Rightarrow> string \<Rightarrow> string" where
  "fullId prefix i = (case prefix of None \<Rightarrow> i | Some p \<Rightarrow> p @ ''.'' @ i)"

text \<open>The entries of a submenu that are processed: outside debug mode, those not marked
  as debug-only.\<close>

definition shownEntries :: "menuEnv \<Rightarrow> rawMenu list \<Rightarrow> rawMenu list" where
  "shownEntries env rawSubMenu = (if \<not> PG_DEBUG env then filter (\<lambda>m. \<not> debug m) rawSubMenu else rawSubMenu)"

lemma size_shownEntries: "size_list size (shownEntries env ms) \<le> size_list size ms"
  by (induction ms) (auto simp: shownEntries_def)

text \<open>
  \<^verbatim>\<open>MenuItem.fromDescriptor(rawMenu, prefix, shortcutTable)\<close>: the menu item, and the
  shortcut table as the call leaves it (the table object is shared with the recursive
  calls, which update it in place); or the error thrown. \<open>fromDescriptors\<close> is the
  \<^verbatim>\<open>map\<close> over the submenu, left to right.
\<close>

function fromDescriptor ::
    "menuEnv \<Rightarrow> rawMenu \<Rightarrow> string option \<Rightarrow> shortcutTable \<Rightarrow> error + (menuItem \<times> shortcutTable)"
  and fromDescriptors ::
    "menuEnv \<Rightarrow> rawMenu list \<Rightarrow> string \<Rightarrow> shortcutTable \<Rightarrow> error + (menuItem list \<times> shortcutTable)"
where
  "fromDescriptor env rawMenu prefix shortcutTable =
     (if separator rawMenu
      then Inr (MenuItem (Some ''separator'') None None None None None None None True False,
                shortcutTable)
      else
        (case raw_id rawMenu of
           None \<Rightarrow> Inl (Error ''Missing menu id'')
         | Some rid \<Rightarrow>
             (let i = fullId prefix rid;
                  enabled = (case raw_enabled rawMenu of None \<Rightarrow> True | Some b \<Rightarrow> b)
              in case
                   (case raw_submenu rawMenu of
                      Some rawSubMenu \<Rightarrow>
                        (case getLabelForSubmenu env i of
                           Inl e \<Rightarrow> Inl e
                         | Inr label \<Rightarrow>
                             (case fromDescriptors env (shownEntries env rawSubMenu) i shortcutTable of
                                Inl e \<Rightarrow> Inl e
                              | Inr (items, table1) \<Rightarrow> Inr (label, Some items, None, table1)))
                    | None \<Rightarrow> Inr (getLabelForEntry env i, None, Some i, shortcutTable))
                 of
                   Inl e \<Rightarrow> Inl e
                 | Inr (label, submenu, command, table1) \<Rightarrow>
                     (let commandKind =
                            (case raw_commandKind rawMenu of
                               None \<Rightarrow> None
                             | Some k \<Rightarrow> map_of (commandKindTable env) k)
                      in case raw_shortcut rawMenu of
                           None \<Rightarrow>
                             Inr (MenuItem None (Some i) (Some rid) (Some label) submenu command
                                    commandKind None enabled False,
                                  table1)
                         | Some sc \<Rightarrow>
                             (case processShortcut env sc table1 of
                                Inl e \<Rightarrow> Inl e
                              | Inr (shortcut, table2) \<Rightarrow>
                                  Inr (MenuItem None (Some i) (Some rid) (Some label) submenu
                                         command commandKind (Some shortcut) enabled False,
                                       table2))))))"
| "fromDescriptors env [] i shortcutTable = Inr ([], shortcutTable)"
| "fromDescriptors env (rawSubMenu # rest) i shortcutTable =
     (case fromDescriptor env rawSubMenu (Some i) shortcutTable of
        Inl e \<Rightarrow> Inl e
      | Inr (item, table1) \<Rightarrow>
          (case fromDescriptors env rest i table1 of
             Inl e \<Rightarrow> Inl e
           | Inr (items, table2) \<Rightarrow> Inr (item # items, table2)))"
  by pat_completeness auto
termination
proof (relation "measure (\<lambda>x. case x of
    Inl (env, m, p, t) \<Rightarrow> 2 * size m
  | Inr (env, ms, i, t) \<Rightarrow> 2 * size_list size ms + 1)", goal_cases)
  case 1
  then show ?case by simp
next
  case (2 env rawMenu prefix shortcutTable rid i enabled rawSubMenu label)
  have "size_list size (shownEntries env rawSubMenu) \<le> size_list size rawSubMenu" by (rule size_shownEntries)
  moreover from 2 have "size_list size rawSubMenu < size rawMenu"
    by (cases rawMenu) simp
  ultimately show ?case by simp
next
  case 3
  then show ?case by simp
next
  case 4
  then show ?case by simp
qed

declare fromDescriptor.simps [simp del]

subsection \<open>When a description is rejected\<close>

text \<open>
  The ways a shortcut is rejected, in the words of the error taxonomy: it specifies both
  a key char and a key code, or neither; it names a key code the key code table does not
  know; or its key and modifier bits are already in the shortcut table.
\<close>

definition modifierBits :: "menuEnv \<Rightarrow> rawShortcut \<Rightarrow> nat" where
  "modifierBits env sc = modifiersToBits env (case modifiers sc of None \<Rightarrow> [] | Some m \<Rightarrow> m)"

definition shortcutKey :: "rawShortcut \<Rightarrow> string" where
  "shortcutKey sc =
     (if specified (keyChar sc) then ''char-'' @ str (keyChar sc)
      else ''code-'' @ str (keyCode sc))"

definition shortcutExists :: "menuEnv \<Rightarrow> rawShortcut \<Rightarrow> shortcutTable \<Rightarrow> bool" where
  "shortcutExists env sc shortcutTable =
     (\<exists>taken. map_of shortcutTable (shortcutKey sc) = Some taken \<and>
              map_of taken (modifierBits env sc) = Some True)"

definition shortcutRejected :: "menuEnv \<Rightarrow> rawShortcut \<Rightarrow> shortcutTable \<Rightarrow> bool" where
  "shortcutRejected env sc shortcutTable =
     ((specified (keyChar sc) \<and> specified (keyCode sc)) \<or>
      (\<not> specified (keyChar sc) \<and> \<not> specified (keyCode sc)) \<or>
      (\<not> specified (keyChar sc) \<and> specified (keyCode sc) \<and>
         map_of (eventKeyCode env) (str (keyCode sc)) = None) \<or>
      shortcutExists env sc shortcutTable)"

lemma processShortcut_fails_iff:
  "isl (processShortcut env sc shortcutTable) \<longleftrightarrow> shortcutRejected env sc shortcutTable"
proof (cases "specified (keyChar sc)")
  case char: True
  show ?thesis
  proof (cases "specified (keyCode sc)")
    case True
    with char show ?thesis by (simp add: processShortcut_def shortcutRejected_def)
  next
    case False
    with char show ?thesis
      by (cases "map_of shortcutTable (''char-'' @ str (keyChar sc))")
        (simp_all add: processShortcut_def shortcutRejected_def shortcutExists_def
          shortcutKey_def modifierBits_def Let_def update_conv')
  qed
next
  case nochar: False
  show ?thesis
  proof (cases "specified (keyCode sc)")
    case False
    with nochar show ?thesis by (simp add: processShortcut_def shortcutRejected_def)
  next
    case code: True
    show ?thesis
    proof (cases "map_of (eventKeyCode env) (str (keyCode sc))")
      case None
      with nochar code show ?thesis by (simp add: processShortcut_def shortcutRejected_def)
    next
      case (Some c)
      with nochar code show ?thesis
        by (cases "map_of shortcutTable (''code-'' @ str (keyCode sc))")
          (simp_all add: processShortcut_def shortcutRejected_def shortcutExists_def
            shortcutKey_def modifierBits_def Let_def update_conv')
    qed
  qed
qed

text \<open>The shortcut table as the submenu of a description leaves it.\<close>

definition tableAfterSubmenu ::
  "menuEnv \<Rightarrow> rawMenu \<Rightarrow> string option \<Rightarrow> shortcutTable \<Rightarrow> shortcutTable" where
  "tableAfterSubmenu env rawMenu prefix shortcutTable =
     (case (raw_id rawMenu, raw_submenu rawMenu) of
        (Some rid, Some rawSubMenu) \<Rightarrow>
          (case fromDescriptors env (shownEntries env rawSubMenu) (fullId prefix rid) shortcutTable of
             Inr (items, table1) \<Rightarrow> table1
           | Inl e \<Rightarrow> shortcutTable)
      | _ \<Rightarrow> shortcutTable)"

lemma getLabelForSubmenu_fails_iff:
  "isl (getLabelForSubmenu env i) \<longleftrightarrow> \<not> hasOwnProperty (localize env (''menu.'' @ i)) ''$MENU''"
  by (auto simp: getLabelForSubmenu_def getLabelForEntry_def Let_def)

lemma isl_sum_case:
  "isl (case x of Inl e \<Rightarrow> Inl e | Inr v \<Rightarrow> Inr (f v)) \<longleftrightarrow> isl x"
  by (cases x) simp_all

text \<open>After the label and the submenu, only the shortcut can reject the description.\<close>

lemma fromDescriptor_leaf:
  "\<not> separator rawMenu \<Longrightarrow> raw_id rawMenu = Some rid \<Longrightarrow> raw_submenu rawMenu = None \<Longrightarrow>
   isl (fromDescriptor env rawMenu prefix shortcutTable) \<longleftrightarrow>
   (\<exists>sc. raw_shortcut rawMenu = Some sc \<and> isl (processShortcut env sc shortcutTable))"
  by (cases "raw_shortcut rawMenu")
    (simp_all add: fromDescriptor.simps Let_def isl_sum_case split: sum.split prod.split)

lemma fromDescriptor_submenu:
  "\<not> separator rawMenu \<Longrightarrow> raw_id rawMenu = Some rid \<Longrightarrow>
   raw_submenu rawMenu = Some rawSubMenu \<Longrightarrow>
   getLabelForSubmenu env (fullId prefix rid) = Inr label \<Longrightarrow>
   fromDescriptors env (shownEntries env rawSubMenu) (fullId prefix rid) shortcutTable =
     Inr (items, table1) \<Longrightarrow>
   isl (fromDescriptor env rawMenu prefix shortcutTable) \<longleftrightarrow>
   (\<exists>sc. raw_shortcut rawMenu = Some sc \<and> isl (processShortcut env sc table1))"
  by (cases "raw_shortcut rawMenu")
    (simp_all add: fromDescriptor.simps Let_def isl_sum_case split: sum.split prod.split)

lemma fromDescriptor_separator:
  "separator rawMenu \<Longrightarrow>
   fromDescriptor env rawMenu prefix shortcutTable =
     Inr (MenuItem (Some ''separator'') None None None None None None None True False,
          shortcutTable)"
  by (simp add: fromDescriptor.simps)

lemma fromDescriptor_no_id:
  "\<not> separator rawMenu \<Longrightarrow> raw_id rawMenu = None \<Longrightarrow>
   fromDescriptor env rawMenu prefix shortcutTable = Inl (Error ''Missing menu id'')"
  by (simp add: fromDescriptor.simps)

lemma fromDescriptor_label_fails:
  "\<not> separator rawMenu \<Longrightarrow> raw_id rawMenu = Some rid \<Longrightarrow>
   raw_submenu rawMenu = Some rawSubMenu \<Longrightarrow>
   getLabelForSubmenu env (fullId prefix rid) = Inl e \<Longrightarrow>
   fromDescriptor env rawMenu prefix shortcutTable = Inl e"
  by (simp add: fromDescriptor.simps)

lemma fromDescriptor_submenu_fails:
  "\<not> separator rawMenu \<Longrightarrow> raw_id rawMenu = Some rid \<Longrightarrow>
   raw_submenu rawMenu = Some rawSubMenu \<Longrightarrow>
   getLabelForSubmenu env (fullId prefix rid) = Inr label \<Longrightarrow>
   fromDescriptors env (shownEntries env rawSubMenu) (fullId prefix rid) shortcutTable = Inl e \<Longrightarrow>
   fromDescriptor env rawMenu prefix shortcutTable = Inl e"
  by (simp add: fromDescriptor.simps)

text \<open>
  Claim C9, amended. \<^verbatim>\<open>MenuItem.fromDescriptor\<close> throws exactly when the description
  is no separator and: it has no ID; or it has a submenu and the localized labels of its
  ID have no \<^verbatim>\<open>$MENU\<close> entry, or an entry of its submenu (those not filtered out as
  debug-only) is rejected; or it has a shortcut that specifies both a key char and a key
  code, or neither, or names an unknown key code, or is already in the shortcut table as
  its submenu left it. On any other description it returns a menu item; a separator
  description always gives the separator item and leaves the table as it was.
\<close>

theorem fromDescriptor_fails_iff:
  "(isl (fromDescriptor env rawMenu prefix shortcutTable) \<longleftrightarrow>
      \<not> separator rawMenu \<and>
      (raw_id rawMenu = None \<or>
       (\<exists>rid rawSubMenu. raw_id rawMenu = Some rid \<and> raw_submenu rawMenu = Some rawSubMenu \<and>
          (\<not> hasOwnProperty (localize env (''menu.'' @ fullId prefix rid)) ''$MENU'' \<or>
           isl (fromDescriptors env (shownEntries env rawSubMenu) (fullId prefix rid) shortcutTable))) \<or>
       (\<exists>sc. raw_shortcut rawMenu = Some sc \<and>
          shortcutRejected env sc (tableAfterSubmenu env rawMenu prefix shortcutTable)))) \<and>
   (separator rawMenu \<longrightarrow>
      fromDescriptor env rawMenu prefix shortcutTable =
        Inr (MenuItem (Some ''separator'') None None None None None None None True False,
             shortcutTable))"
proof (cases "separator rawMenu")
  case True
  then show ?thesis by (simp add: fromDescriptor_separator)
next
  case sep: False
  show ?thesis
  proof (cases "raw_id rawMenu")
    case None
    with sep show ?thesis by (simp add: fromDescriptor_no_id)
  next
    case (Some rid)
    show ?thesis
    proof (cases "raw_submenu rawMenu")
      case None
      have "tableAfterSubmenu env rawMenu prefix shortcutTable = shortcutTable"
        using Some None by (simp add: tableAfterSubmenu_def)
      with sep Some None fromDescriptor_leaf [OF sep Some None, of env prefix shortcutTable]
      show ?thesis by (simp add: processShortcut_fails_iff)
    next
      case sub: (Some rawSubMenu)
      show ?thesis
      proof (cases "getLabelForSubmenu env (fullId prefix rid)")
        case (Inl e)
        then have "\<not> hasOwnProperty (localize env (''menu.'' @ fullId prefix rid)) ''$MENU''"
          using getLabelForSubmenu_fails_iff [of env "fullId prefix rid"] by simp
        with sep Some sub fromDescriptor_label_fails [OF sep Some sub Inl, of shortcutTable]
        show ?thesis by simp
      next
        case (Inr label)
        then have lab: "hasOwnProperty (localize env (''menu.'' @ fullId prefix rid)) ''$MENU''"
          using getLabelForSubmenu_fails_iff [of env "fullId prefix rid"] by auto
        show ?thesis
        proof (cases "fromDescriptors env (shownEntries env rawSubMenu) (fullId prefix rid) shortcutTable")
          case (Inl e)
          with sep Some sub fromDescriptor_submenu_fails [OF sep Some sub Inr Inl]
          show ?thesis by simp
        next
          case items: (Inr r)
          obtain its table1 where r: "r = (its, table1)" by (cases r)
          have t: "tableAfterSubmenu env rawMenu prefix shortcutTable = table1"
            using Some sub items r by (simp add: tableAfterSubmenu_def)
          from items r have "fromDescriptors env (shownEntries env rawSubMenu) (fullId prefix rid)
              shortcutTable = Inr (its, table1)" by simp
          from fromDescriptor_submenu [OF sep Some sub Inr this] sep Some sub lab items t
          show ?thesis by (simp add: processShortcut_fails_iff)
        qed
      qed
    qed
  qed
qed

text \<open>A submenu is rejected exactly when one of its entries is, the entries before it
  having been accepted.\<close>

lemma fromDescriptors_fails_iff:
  "isl (fromDescriptors env ms i shortcutTable) \<longleftrightarrow>
   (\<exists>before m rest items table1. ms = before @ m # rest \<and>
      fromDescriptors env before i shortcutTable = Inr (items, table1) \<and>
      isl (fromDescriptor env m (Some i) table1))"
proof (induction ms arbitrary: shortcutTable)
  case Nil
  then show ?case by simp
next
  case (Cons m ms)
  show ?case
  proof (cases "fromDescriptor env m (Some i) shortcutTable")
    case (Inl e)
    then have "isl (fromDescriptors env (m # ms) i shortcutTable)" by simp
    moreover have "m # ms = [] @ m # ms \<and>
        fromDescriptors env [] i shortcutTable = Inr ([], shortcutTable) \<and>
        isl (fromDescriptor env m (Some i) shortcutTable)"
      using Inl by simp
    ultimately show ?thesis by blast
  next
    case (Inr r)
    obtain item table1 where r: "r = (item, table1)" by (cases r)
    have l: "isl (fromDescriptors env (m # ms) i shortcutTable) \<longleftrightarrow>
        isl (fromDescriptors env ms i table1)"
      using Inr r by (simp split: sum.split prod.split)
    show ?thesis
    proof
      assume "isl (fromDescriptors env (m # ms) i shortcutTable)"
      with l Cons.IH [of table1] obtain before m' rest items table2 where
        ms: "ms = before @ m' # rest" and
        b: "fromDescriptors env before i table1 = Inr (items, table2)" and
        f: "isl (fromDescriptor env m' (Some i) table2)"
        by blast
      have "m # ms = (m # before) @ m' # rest" using ms by simp
      moreover have "fromDescriptors env (m # before) i shortcutTable = Inr (item # items, table2)"
        using Inr r b by simp
      ultimately show "\<exists>before m' rest items table1. m # ms = before @ m' # rest \<and>
          fromDescriptors env before i shortcutTable = Inr (items, table1) \<and>
          isl (fromDescriptor env m' (Some i) table1)"
        using f by blast
    next
      assume "\<exists>before m' rest items table1. m # ms = before @ m' # rest \<and>
          fromDescriptors env before i shortcutTable = Inr (items, table1) \<and>
          isl (fromDescriptor env m' (Some i) table1)"
      then obtain before m' rest items table2 where
        ms: "m # ms = before @ m' # rest" and
        b: "fromDescriptors env before i shortcutTable = Inr (items, table2)" and
        f: "isl (fromDescriptor env m' (Some i) table2)"
        by blast
      show "isl (fromDescriptors env (m # ms) i shortcutTable)"
      proof (cases before)
        case Nil
        with ms b f Inr show ?thesis by simp
      next
        case later: (Cons m0 before')
        with ms have eq: "m0 = m" "ms = before' @ m' # rest" by simp_all
        from b later eq Inr r obtain items' where
          "fromDescriptors env before' i table1 = Inr (items', table2)"
          by (auto split: sum.splits prod.splits)
        with eq f have "isl (fromDescriptors env ms i table1)"
          using Cons.IH [of table1] by blast
        with l show ?thesis by simp
      qed
    qed
  qed
qed

text \<open>
  An environment for the examples: every label is a plain string, unless it is the label
  of \<^verbatim>\<open>menu.EDIT\<close>, which has a \<^verbatim>\<open>$MENU\<close> entry; the key code table knows
  \<^verbatim>\<open>ENTER\<close>; the modifier bits are the number of modifiers.
\<close>

definition exampleMenuEnv :: menuEnv where
  "exampleMenuEnv =
     \<lparr>localize = (\<lambda>k. if k = ''menu.EDIT'' then JObj [(''$MENU'', JStr ''Edit'')] else JStr k),
      eventKeyCode = [(''ENTER'', 13)],
      commandKindTable = [],
      modifiersToBits = (\<lambda>m. length m),
      PG_DEBUG = False\<rparr>"

text \<open>
  Against claim C9 as stated: a description with an ID, with no shortcut, and with an
  empty submenu is rejected when the localized labels of its ID have no \<^verbatim>\<open>$MENU\<close>
  entry; none of the four conditions of the claim holds of it.
\<close>

theorem fromDescriptor_missing_label_counterexample:
  "\<not> separator (RawMenu False (Some ''FILE'') None (Some []) None None False) \<and>
   raw_id (RawMenu False (Some ''FILE'') None (Some []) None None False) = Some ''FILE'' \<and>
   raw_shortcut (RawMenu False (Some ''FILE'') None (Some []) None None False) = None \<and>
   fromDescriptor exampleMenuEnv (RawMenu False (Some ''FILE'') None (Some []) None None False)
     None [] = Inl (Error ''Missing label for menu: FILE'')"
proof -
  have "getLabelForSubmenu exampleMenuEnv (fullId None ''FILE'') =
      Inl (Error ''Missing label for menu: FILE'')"
  proof -
    have "\<not> hasOwnProperty (JStr ''menu.FILE'') ''$MENU''" by code_simp
    then show ?thesis
      by (simp add: getLabelForSubmenu_def getLabelForEntry_def fullId_def exampleMenuEnv_def
          Let_def del: hasOwnProperty.simps)
  qed
  from fromDescriptor_label_fails [where rawMenu = "RawMenu False (Some ''FILE'') None (Some [])
      None None False" and rid = "''FILE''" and prefix = None, OF _ _ _ this]
  show ?thesis by simp
qed

theorem fromDescriptor_fails_iff_witness:
  "\<not> isl (fromDescriptor exampleMenuEnv
       (RawMenu False (Some ''UNDO'') None None None
          (Some \<lparr>keyChar = Some ''z'', keyCode = None, modifiers = Some [(''command'', JBool True)]\<rparr>)
          False)
       (Some ''EDIT'') []) \<and>
   isl (fromDescriptor exampleMenuEnv
       (RawMenu False (Some ''UNDO'') None None None
          (Some \<lparr>keyChar = Some ''z'', keyCode = None, modifiers = Some [(''command'', JBool True)]\<rparr>)
          False)
       (Some ''EDIT'') [(''char-z'', [(1, True)])]) \<and>
   isl (fromDescriptor exampleMenuEnv
       (RawMenu False (Some ''UNDO'') None None None
          (Some \<lparr>keyChar = None, keyCode = Some ''F13'', modifiers = None\<rparr>) False)
       (Some ''EDIT'') []) \<and>
   fromDescriptor exampleMenuEnv
       (RawMenu True None None None None
          (Some \<lparr>keyChar = Some ''z'', keyCode = Some ''ENTER'', modifiers = None\<rparr>) False)
       None [] =
     Inr (MenuItem (Some ''separator'') None None None None None None None True False, [])"
  using fromDescriptor_fails_iff [of exampleMenuEnv
      "RawMenu False (Some ''UNDO'') None None None
          (Some \<lparr>keyChar = Some ''z'', keyCode = None, modifiers = Some [(''command'', JBool True)]\<rparr>)
          False" "Some ''EDIT''" "[]"]
    fromDescriptor_fails_iff [of exampleMenuEnv
      "RawMenu False (Some ''UNDO'') None None None
          (Some \<lparr>keyChar = Some ''z'', keyCode = None, modifiers = Some [(''command'', JBool True)]\<rparr>)
          False" "Some ''EDIT''" "[(''char-z'', [(1, True)])]"]
    fromDescriptor_fails_iff [of exampleMenuEnv
      "RawMenu False (Some ''UNDO'') None None None
          (Some \<lparr>keyChar = None, keyCode = Some ''F13'', modifiers = None\<rparr>) False"
      "Some ''EDIT''" "[]"]
    fromDescriptor_fails_iff [of exampleMenuEnv
      "RawMenu True None None None None
          (Some \<lparr>keyChar = Some ''z'', keyCode = Some ''ENTER'', modifiers = None\<rparr>) False"
      None "[]"]
  by (simp add: shortcutRejected_def shortcutExists_def shortcutKey_def modifierBits_def
      tableAfterSubmenu_def specified_def str_def exampleMenuEnv_def)

text \<open>A menu with a submenu: the entries share the shortcut table, so the second use of a
  shortcut within the menu is rejected.\<close>

lemma fromDescriptor_duplicate_in_submenu:
  "fromDescriptor exampleMenuEnv
     (RawMenu False (Some ''EDIT'') None
        (Some [RawMenu False (Some ''UNDO'') None None None
                 (Some \<lparr>keyChar = Some ''z'', keyCode = None, modifiers = None\<rparr>) False,
               RawMenu True None None None None None False,
               RawMenu False (Some ''REDO'') None None None
                 (Some \<lparr>keyChar = Some ''z'', keyCode = None, modifiers = None\<rparr>) False])
        None None False)
     None [] = Inl (Error ''Menu entry shortcut duplicate: char-z'')"
  by (simp add: fromDescriptor.simps getLabelForSubmenu_def getLabelForEntry_def fullId_def
      shownEntries_def processShortcut_def specified_def str_def exampleMenuEnv_def Let_def)

end
